theory Spec2Isabelle
  imports Main "HOL-Library.Multiset"
begin

section \<open>Text\<close>

text \<open>
  A Python \<open>str\<close> is a sequence of Unicode code points, so a caption is a list of
  code points. The literals of \<open>bot.py\<close> that go beyond ASCII are listed code point by
  code point, as the file holds them when it is read as UTF-8.
\<close>

type_synonym ustring = "nat list"

definition ascii :: "string \<Rightarrow> ustring" where
  "ascii s = map of_char s"

definition NL :: nat where
  "NL = 10"

text \<open>
  \<open>str.isspace\<close> on one character, which is also what \<open>\s\<close> matches in a \<open>str\<close>
  pattern and what \<open>str.strip()\<close> removes.
\<close>

definition isspace :: "nat \<Rightarrow> bool" where
  "isspace c \<longleftrightarrow>
     c \<in> set [9, 10, 11, 12, 13, 28, 29, 30, 31, 32, 133, 160, 5760,
               8192, 8193, 8194, 8195, 8196, 8197, 8198, 8199, 8200, 8201, 8202,
               8232, 8233, 8239, 8287, 12288]"

definition strip :: "ustring \<Rightarrow> ustring" where
  "strip s = rev (dropWhile isspace (rev (dropWhile isspace s)))"

section \<open>The patterns of the extractor\<close>

text \<open>
  Every pattern of \<open>bot.py\<close> is a literal marker followed by \<open>\s*([^\n]+)\<close>, and
  \<open>re.search\<close> is asked for group 1 only.

  \<open>match_literal m s\<close> matches the marker at the start of \<open>s\<close> and gives the rest.
\<close>

fun match_literal :: "ustring \<Rightarrow> ustring \<Rightarrow> ustring option" where
  "match_literal [] s = Some s"
| "match_literal (a # m) [] = None"
| "match_literal (a # m) (c # s) = (if a = c then match_literal m s else None)"

text \<open>
  \<open>\s*([^\n]+)\<close> at the start of \<open>s\<close>: the star is greedy, so a whitespace character
  is first given to it; when the rest then fails, the matcher backtracks and starts the
  group at that character, which works unless it is a line feed. The group is greedy and
  the pattern ends with it, so it runs to the next line feed or to the end.
\<close>

fun match_tail :: "ustring \<Rightarrow> ustring option" where
  "match_tail [] = None"
| "match_tail (c # s) =
     (if isspace c then
        (case match_tail s of
           Some g \<Rightarrow> Some g
         | None \<Rightarrow> if c \<noteq> NL then Some (takeWhile (\<lambda>x. x \<noteq> NL) (c # s)) else None)
      else Some (takeWhile (\<lambda>x. x \<noteq> NL) (c # s)))"

definition match_here :: "ustring \<Rightarrow> ustring \<Rightarrow> ustring option" where
  "match_here m s = (case match_literal m s of None \<Rightarrow> None | Some r \<Rightarrow> match_tail r)"

text \<open>
  \<open>re.search\<close>: the leftmost start at which the pattern matches. The value is group 1
  of the match, \<open>None\<close> when there is no match.
\<close>

fun re_search :: "ustring \<Rightarrow> ustring \<Rightarrow> ustring option" where
  "re_search m [] = match_here m []"
| "re_search m (c # s) =
     (case match_here m (c # s) of Some g \<Rightarrow> Some g | None \<Rightarrow> re_search m s)"

definition video_marker :: ustring where
  "video_marker = [63743, 252, 233, 251, 212, 8719, 232, 63743, 249, 234, 236,
     63743, 249, 234, 162, 63743, 249, 234, 8800, 63743, 249, 234, 8226,
     63743, 249, 234, 251, 32, 172, 170]"

definition pdf_marker :: ustring where
  "pdf_marker = [63743, 252, 236, 239, 63743, 249, 234, 236, 63743, 249, 234, 162,
     63743, 249, 234, 8800, 63743, 249, 234, 8226, 63743, 249, 234, 251, 32, 172, 170]"

definition course_marker :: ustring where
  "course_marker = [63743, 252, 236, 246] @ ascii '' Course :''"

definition extracted_marker :: ustring where
  "extracted_marker = [63743, 252, 229, 252, 63743, 249, 234, 209, 63743, 249, 234, 177,
     63743, 249, 234, 8800, 63743, 249, 234, 180, 63743, 249, 234, 246,
     63743, 249, 234, 250, 63743, 249, 234, 8800, 63743, 249, 234, 251,
     63743, 249, 234, 249, 32, 63743, 249, 234, 197, 63743, 249, 234, 8804, 32, 172, 170]"

text \<open>\<open>extract_title\<close> returns a string or Python's \<open>None\<close>.\<close>

definition extract_title :: "ustring \<Rightarrow> ustring option" where
  "extract_title caption =
     (let video_match = re_search video_marker caption;
          pdf_match = re_search pdf_marker caption
      in case video_match of
           Some g \<Rightarrow> Some (strip g)
         | None \<Rightarrow> (case pdf_match of Some g \<Rightarrow> Some (strip g) | None \<Rightarrow> None))"

definition extract_course :: "ustring \<Rightarrow> ustring" where
  "extract_course caption =
     (case re_search course_marker caption of
        Some g \<Rightarrow> strip g
      | None \<Rightarrow> ascii ''Unknown'')"

definition extract_extracted_by :: "ustring \<Rightarrow> ustring" where
  "extract_extracted_by caption =
     (case re_search extracted_marker caption of
        Some g \<Rightarrow> strip g
      | None \<Rightarrow> ascii ''Unknown'')"

section \<open>The record store\<close>

text \<open>
  \<open>config\<close> is a module of the repository that \<open>bot.py\<close> imports; the two of its
  constants that the modelled functions read are taken as parameters.
\<close>

record config =
  CHANNEL_USERNAME :: ustring
  ADMIN_ID :: int

text \<open>
  A row of the table \<open>media_files\<close>. \<open>SELECT *\<close> gives the columns in the order of
  the \<open>CREATE TABLE\<close> statement, so \<open>f[1]\<close> is \<open>message_id\<close>, \<open>f[2]\<close> is
  \<open>file_type\<close>, \<open>f[3]\<close> is \<open>title\<close> and \<open>f[4]\<close> is \<open>course\<close>. The column
  \<open>timestamp\<close> defaults to \<open>CURRENT_TIMESTAMP\<close>, which has a resolution of one second;
  it is kept as a number of seconds.
\<close>

record media_file =
  id_col :: nat
  message_id :: int
  file_type :: ustring
  title :: ustring
  course :: ustring
  extracted_by :: ustring
  file_id :: ustring
  timestamp :: nat

text \<open>
  The database: the rows of the table in rowid order and the counter that
  \<open>AUTOINCREMENT\<close> keeps of the largest rowid given out so far.
\<close>

record database =
  media_files :: "media_file list"
  seq :: nat

definition init_db :: database where
  "init_db = \<lparr>media_files = [], seq = 0\<rparr>"

text \<open>
  \<open>store_media_data\<close>: one \<open>INSERT\<close> that names neither \<open>id\<close> nor \<open>timestamp\<close>, so
  the row takes the next rowid and the database clock \<open>now\<close>.
\<close>

definition store_media_data ::
  "nat \<Rightarrow> int \<Rightarrow> ustring \<Rightarrow> ustring \<Rightarrow> ustring \<Rightarrow> ustring \<Rightarrow> ustring \<Rightarrow> database \<Rightarrow> database" where
  "store_media_data now message_id' file_type' title' course' extracted_by' file_id' db =
     \<lparr>media_files = media_files db @
        [\<lparr>id_col = Suc (seq db), message_id = message_id', file_type = file_type',
          title = title', course = course', extracted_by = extracted_by',
          file_id = file_id', timestamp = now\<rparr>],
      seq = Suc (seq db)\<rparr>"

text \<open>
  \<open>get_media_files\<close>: both queries say \<open>ORDER BY timestamp DESC\<close> and nothing else.
  The rows are read in rowid order and sorted on that one key; rows with equal timestamps
  keep the order in which they were read.
\<close>

definition order_by_timestamp_desc :: "media_file list \<Rightarrow> media_file list" where
  "order_by_timestamp_desc rs = sort_key (\<lambda>r. - int (timestamp r)) rs"

definition get_media_files :: "ustring option \<Rightarrow> database \<Rightarrow> media_file list" where
  "get_media_files file_type' db =
     (case file_type' of
        Some t \<Rightarrow>
          if t \<noteq> [] then order_by_timestamp_desc (filter (\<lambda>r. file_type r = t) (media_files db))
          else order_by_timestamp_desc (media_files db)
      | None \<Rightarrow> order_by_timestamp_desc (media_files db))"

section \<open>The ingestion pipeline\<close>

text \<open>
  Of a message the pipeline reads its id, its caption and the file ids of its video and
  document attachments; an attachment or a caption that is missing is \<open>None\<close>.
\<close>

record attachment =
  att_file_id :: ustring

record message =
  id_msg :: int
  video :: "attachment option"
  document :: "attachment option"
  caption :: "ustring option"

text \<open>
  \<open>process_channel_message\<close>. The caption falls back to the empty string when it is
  \<open>None\<close> or empty, and \<open>if title:\<close> holds for a string that is not empty. Under the
  outer test one of the attachments is there, so the last branch of \<open>file_id'\<close> is never
  taken.
\<close>

definition process_channel_message :: "nat \<Rightarrow> message \<Rightarrow> database \<Rightarrow> database" where
  "process_channel_message now msg db =
     (if video msg \<noteq> None \<or> document msg \<noteq> None then
        let caption' = (case caption msg of Some c \<Rightarrow> if c \<noteq> [] then c else [] | None \<Rightarrow> []);
            title' = extract_title caption';
            course' = extract_course caption';
            extracted_by' = extract_extracted_by caption'
        in (case title' of
              Some t \<Rightarrow>
                if t \<noteq> [] then
                  let file_type' = (if video msg \<noteq> None then ascii ''video'' else ascii ''pdf'');
                      file_id' = (case video msg of
                                    Some v \<Rightarrow> att_file_id v
                                  | None \<Rightarrow> (case document msg of
                                               Some d \<Rightarrow> att_file_id d
                                             | None \<Rightarrow> []))
                  in store_media_data now (id_msg msg) file_type' t course' extracted_by' file_id' db
                else db
            | None \<Rightarrow> db)
      else db)"

text \<open>The monitor handles the messages of the channel one after the other.\<close>

definition run_monitor :: "(nat \<times> message) list \<Rightarrow> database \<Rightarrow> database" where
  "run_monitor events db = foldl (\<lambda>d (now, msg). process_channel_message now msg d) db events"

section \<open>The summary renderer\<close>

text \<open>\<open>str\<close> of an integer, as the f-strings print a message id.\<close>

fun digits :: "nat \<Rightarrow> ustring" where
  "digits n = (if n < 10 then [48 + n] else digits (n div 10) @ [48 + n mod 10])"

declare digits.simps [simp del]

definition str_int :: "int \<Rightarrow> ustring" where
  "str_int i = (if i < 0 then 45 # digits (nat (- i)) else digits (nat i))"

text \<open>
  \<open>organized_data\<close> is a dict from a course to the list of its rows; a dict keeps its
  keys in the order in which they were first stored, which the loop over \<open>items()\<close>
  relies on, so it is an association list here.
\<close>

definition add_file ::
  "(ustring \<times> media_file list) list \<Rightarrow> media_file \<Rightarrow> (ustring \<times> media_file list) list" where
  "add_file organized_data file =
     (let course' = course file;
          organized_data' =
            (if course' \<notin> set (map fst organized_data) then organized_data @ [(course', [])]
             else organized_data)
      in map (\<lambda>(c, files). if c = course' then (c, files @ [file]) else (c, files))
           organized_data')"

definition organize :: "media_file list \<Rightarrow> (ustring \<times> media_file list) list" where
  "organize media = foldl add_file [] media"

definition link_line :: "config \<Rightarrow> media_file \<Rightarrow> ustring" where
  "link_line cfg f =
     [8218, 196, 162] @ ascii '' ['' @ title f @ ascii ''](https://t.me/'' @
     CHANNEL_USERNAME cfg @ ascii ''/'' @ str_int (message_id f) @ ascii '')'' @ [NL]"

definition videos_header :: ustring where
  "videos_header = [63743, 252, 233, 8226] @ ascii '' **Videos:**'' @ [NL]"

definition pdfs_header :: ustring where
  "pdfs_header = [63743, 252, 236, 209] @ ascii '' **PDFs:**'' @ [NL]"

definition summary_header :: ustring where
  "summary_header = [63743, 252, 236, 246] @ ascii '' **Course Materials Summary**'' @ [NL, NL]"

text \<open>
  One round of the loop over \<open>organized_data.items()\<close>: the text so far, with the block
  of one course appended.
\<close>

definition course_block :: "config \<Rightarrow> ustring \<Rightarrow> ustring \<times> media_file list \<Rightarrow> ustring" where
  "course_block cfg summary_text item =
     (let course' = fst item;
          files = snd item;
          text1 = summary_text @ ascii ''**'' @ course' @ ascii ''**'' @ [NL];
          videos = filter (\<lambda>f. file_type f = ascii ''video'') files;
          pdfs = filter (\<lambda>f. file_type f = ascii ''pdf'') files;
          text2 = (if videos \<noteq> [] then
                     foldl (\<lambda>t v. t @ link_line cfg v) (text1 @ videos_header) (take 5 videos)
                   else text1);
          text3 = (if pdfs \<noteq> [] then
                     foldl (\<lambda>t p. t @ link_line cfg p) (text2 @ pdfs_header) (take 5 pdfs)
                   else text2)
      in text3 @ [NL])"

definition render_summary :: "config \<Rightarrow> media_file list \<Rightarrow> ustring" where
  "render_summary cfg media = foldl (course_block cfg) summary_header (organize media)"

text \<open>
  What a command handler does: replies to the operator and messages sent to a chat.
  Sending to the channel may raise; \<open>send_error\<close> is the text of the exception then.
\<close>

datatype action = reply_text ustring | send_message ustring ustring

definition post_summary :: "config \<Rightarrow> int \<Rightarrow> ustring option \<Rightarrow> database \<Rightarrow> action list" where
  "post_summary cfg user_id send_error db =
     (if user_id \<noteq> ADMIN_ID cfg then
        [reply_text (ascii ''You are not authorized to use this command.'')]
      else
        let media = get_media_files None db
        in if media = [] then [reply_text (ascii ''No media files found in database.'')]
           else
             let summary_text = render_summary cfg media
             in (case send_error of
                   None \<Rightarrow>
                     [send_message (ascii ''@'' @ CHANNEL_USERNAME cfg) summary_text,
                      reply_text (ascii ''Summary posted successfully!'')]
                 | Some e \<Rightarrow> [reply_text (ascii ''Error posting summary: '' @ e)]))"

definition listing_entry :: "config \<Rightarrow> media_file \<Rightarrow> ustring" where
  "listing_entry cfg f = link_line cfg f @ ascii ''  Course: '' @ course f @ [NL, NL]"

definition get_videos :: "config \<Rightarrow> int \<Rightarrow> database \<Rightarrow> action list" where
  "get_videos cfg user_id db =
     (if user_id \<noteq> ADMIN_ID cfg then
        [reply_text (ascii ''You are not authorized to use this command.'')]
      else
        let videos = get_media_files (Some (ascii ''video'')) db
        in if videos = [] then [reply_text (ascii ''No videos found in database.'')]
           else
             [reply_text (foldl (\<lambda>response v. response @ listing_entry cfg v)
                ([63743, 252, 233, 8226] @ ascii '' **All Videos**'' @ [NL, NL]) videos)])"

definition get_pdfs :: "config \<Rightarrow> int \<Rightarrow> database \<Rightarrow> action list" where
  "get_pdfs cfg user_id db =
     (if user_id \<noteq> ADMIN_ID cfg then
        [reply_text (ascii ''You are not authorized to use this command.'')]
      else
        let pdfs = get_media_files (Some (ascii ''pdf'')) db
        in if pdfs = [] then [reply_text (ascii ''No PDFs found in database.'')]
           else
             [reply_text (foldl (\<lambda>response p. response @ listing_entry cfg p)
                ([63743, 252, 236, 209] @ ascii '' **All PDFs**'' @ [NL, NL]) pdfs)])"

section \<open>Notions of the specification\<close>

text \<open>
  The caption contains the marker: \<open>find_marker m s\<close> is what follows the first
  occurrence of \<open>m\<close> in \<open>s\<close>, and \<open>None\<close> when \<open>m\<close> does not occur.
\<close>

fun find_marker :: "ustring \<Rightarrow> ustring \<Rightarrow> ustring option" where
  "find_marker m [] = match_literal m []"
| "find_marker m (c # s) =
     (case match_literal m (c # s) of Some r \<Rightarrow> Some r | None \<Rightarrow> find_marker m s)"

definition contains :: "ustring \<Rightarrow> ustring \<Rightarrow> bool" where
  "contains m s \<longleftrightarrow> find_marker m s \<noteq> None"

text \<open>The trimmed remainder of a line: what \<open>r\<close> holds up to its first line feed, stripped.\<close>

definition line_rest :: "ustring \<Rightarrow> ustring" where
  "line_rest r = strip (takeWhile (\<lambda>x. x \<noteq> NL) r)"

text \<open>The caption of a message, the empty string when it has none.\<close>

definition caption_text :: "message \<Rightarrow> ustring" where
  "caption_text msg = (case caption msg of Some c \<Rightarrow> c | None \<Rightarrow> [])"

text \<open>
  What follows the first occurrence of a marker up to the end of the caption:
  \<open>newlines_to_end\<close> when it is nothing but line feeds (or nothing at all),
  \<open>blank_to_end\<close> when it is nothing but whitespace and not only line feeds.
  \<open>value_after\<close> is the trimmed remainder of the line that begins at the first
  character after the marker that is not whitespace.
\<close>

definition newlines_to_end :: "ustring \<Rightarrow> ustring \<Rightarrow> bool" where
  "newlines_to_end m s =
     (case find_marker m s of None \<Rightarrow> False | Some r \<Rightarrow> list_all (\<lambda>x. x = NL) r)"

definition blank_to_end :: "ustring \<Rightarrow> ustring \<Rightarrow> bool" where
  "blank_to_end m s =
     (case find_marker m s of
        None \<Rightarrow> False
      | Some r \<Rightarrow> list_all isspace r \<and> \<not> list_all (\<lambda>x. x = NL) r)"

definition value_after :: "ustring \<Rightarrow> ustring \<Rightarrow> ustring" where
  "value_after m s =
     (case find_marker m s of None \<Rightarrow> [] | Some r \<Rightarrow> line_rest (dropWhile isspace r))"

text \<open>
  The order of the specification on a listing: descending \<open>createdAt\<close>, ties broken by
  descending \<open>id\<close>; and the order on \<open>createdAt\<close> alone.
\<close>

definition recency_desc :: "media_file list \<Rightarrow> bool" where
  "recency_desc rs \<longleftrightarrow>
     sorted_wrt (\<lambda>a b. timestamp b < timestamp a \<or>
                        (timestamp a = timestamp b \<and> id_col b < id_col a)) rs"

definition timestamp_desc :: "media_file list \<Rightarrow> bool" where
  "timestamp_desc rs \<longleftrightarrow> sorted_wrt (\<lambda>a b. timestamp b \<le> timestamp a) rs"

text \<open>The values of a sequence in the order in which they are first seen.\<close>

fun first_seen :: "'a list \<Rightarrow> 'a list" where
  "first_seen [] = []"
| "first_seen (x # xs) = x # filter (\<lambda>y. y \<noteq> x) (first_seen xs)"

text \<open>
  A sub-list of a course block: nothing at all when there are no entries, otherwise the
  sub-header followed by one link line for each entry.
\<close>

definition sub_list :: "config \<Rightarrow> ustring \<Rightarrow> media_file list \<Rightarrow> ustring" where
  "sub_list cfg header entries =
     (if entries = [] then [] else header @ concat (map (link_line cfg) entries))"

section \<open>Matching\<close>

lemma match_literal_iff: "match_literal m s = Some r \<longleftrightarrow> s = m @ r"
  by (induction m s rule: match_literal.induct) auto

lemma find_marker_SomeD: "find_marker m s = Some r \<Longrightarrow> \<exists>p. s = p @ m @ r"
proof (induction s)
  case Nil
  then show ?case by (simp add: match_literal_iff)
next
  case (Cons c s)
  show ?case
  proof (cases "match_literal m (c # s)")
    case None
    with Cons obtain p where "s = p @ m @ r" by auto
    then have "c # s = (c # p) @ m @ r" by simp
    then show ?thesis by blast
  next
    case (Some r')
    with Cons.prems have "c # s = [] @ m @ r" by (simp add: match_literal_iff)
    then show ?thesis by blast
  qed
qed

lemma find_marker_None: "find_marker m (p @ m @ q) \<noteq> None"
proof (induction p)
  case Nil
  have "match_literal m (m @ q) = Some q" by (simp add: match_literal_iff)
  then show ?case by (cases "m @ q") (auto simp del: match_literal.simps)
next
  case (Cons a p)
  then show ?case by (auto split: option.splits)
qed

lemma contains_iff: "contains m s \<longleftrightarrow> (\<exists>p q. s = p @ m @ q)"
  unfolding contains_def using find_marker_SomeD find_marker_None by (metis not_Some_eq)

lemma re_search_absent: "find_marker m s = None \<Longrightarrow> re_search m s = None"
  by (induction s) (auto simp: match_here_def split: option.splits)

lemma re_search_first:
  "find_marker m s = Some r \<Longrightarrow> match_tail r = Some g \<Longrightarrow> re_search m s = Some g"
  by (induction s) (auto simp: match_here_def split: option.splits)

lemma strip_Cons_space: "isspace c \<Longrightarrow> strip (c # s) = strip s"
  by (simp add: strip_def)

lemma strip_all_space: "\<forall>x\<in>set g. isspace x \<Longrightarrow> strip g = []"
  by (auto simp: strip_def dest: set_dropWhileD)

lemma strip_nonempty: "\<not> isspace c \<Longrightarrow> strip (c # s) \<noteq> []"
  by (simp add: strip_def dropWhile_append)

lemma isspace_NL: "isspace NL"
  by (simp add: isspace_def NL_def)

lemma match_tail_line_rest:
  "line_rest r \<noteq> [] \<Longrightarrow> \<exists>g. match_tail r = Some g \<and> strip g = line_rest r"
proof (induction r)
  case Nil
  then show ?case by (simp add: line_rest_def strip_def)
next
  case (Cons c s)
  show ?case
  proof (cases "isspace c")
    case False
    then show ?thesis using isspace_NL by (auto simp: line_rest_def)
  next
    case True
    show ?thesis
    proof (cases "c = NL")
      case True
      with Cons.prems show ?thesis by (simp add: line_rest_def strip_def)
    next
      case False
      with \<open>isspace c\<close> Cons.prems have "line_rest s \<noteq> []" and eq: "line_rest (c # s) = line_rest s"
        by (simp_all add: line_rest_def strip_Cons_space)
      with Cons.IH obtain g where "match_tail s = Some g" "strip g = line_rest s" by blast
      with \<open>isspace c\<close> eq show ?thesis by simp
    qed
  qed
qed

lemma match_tail_subset: "match_tail r = Some g \<Longrightarrow> set g \<subseteq> set r"
proof (induction r arbitrary: g)
  case Nil
  then show ?case by simp
next
  case (Cons c s)
  then show ?case
    by (auto split: if_splits option.splits dest: set_takeWhileD)
qed

lemma match_tail_blank:
  "\<forall>x\<in>set r. isspace x \<Longrightarrow> match_tail r = Some g \<Longrightarrow> strip g = []"
  using match_tail_subset strip_all_space by blast

section \<open>The pipeline, step by step\<close>

lemma caption_fallback:
  "(case caption msg of Some c \<Rightarrow> if c \<noteq> [] then c else [] | None \<Rightarrow> []) = caption_text msg"
  by (simp add: caption_text_def split: option.splits)

lemma process_insert:
  assumes "video msg \<noteq> None \<or> document msg \<noteq> None"
    and "extract_title (caption_text msg) = Some t" and "t \<noteq> []"
  shows "process_channel_message now msg db =
     store_media_data now (id_msg msg)
       (if video msg \<noteq> None then ascii ''video'' else ascii ''pdf'') t
       (extract_course (caption_text msg)) (extract_extracted_by (caption_text msg))
       (case video msg of Some v \<Rightarrow> att_file_id v
        | None \<Rightarrow> (case document msg of Some d \<Rightarrow> att_file_id d | None \<Rightarrow> [])) db"
  using assms unfolding process_channel_message_def caption_fallback by (simp add: Let_def)

lemma process_skip:
  assumes "extract_title (caption_text msg) = None \<or> extract_title (caption_text msg) = Some []"
  shows "process_channel_message now msg db = db"
  using assms unfolding process_channel_message_def caption_fallback by (auto simp: Let_def)

lemma process_no_payload:
  "video msg = None \<Longrightarrow> document msg = None \<Longrightarrow> process_channel_message now msg db = db"
  by (simp add: process_channel_message_def)

lemma extract_title_None_iff:
  "extract_title c = None \<longleftrightarrow> re_search video_marker c = None \<and> re_search pdf_marker c = None"
  by (simp add: extract_title_def Let_def split: option.splits)

lemma store_rows:
  "media_files (store_media_data now i ft t c e f db) =
     media_files db @ [\<lparr>id_col = Suc (seq db), message_id = i, file_type = ft, title = t,
        course = c, extracted_by = e, file_id = f, timestamp = now\<rparr>]"
  by (simp add: store_media_data_def)

lemma store_seq: "seq (store_media_data now i ft t c e f db) = Suc (seq db)"
  by (simp add: store_media_data_def)

text \<open>The definitions that a run on a concrete caption unfolds.\<close>

lemmas eval_defs = extract_title_def extract_course_def extract_extracted_by_def
  video_marker_def pdf_marker_def course_marker_def extracted_marker_def ascii_def
  match_here_def isspace_def strip_def NL_def caption_text_def Let_def

section \<open>Claims\<close>

text \<open>
  C1. For a message that carries a video or a document, the pipeline inserts a record if
  and only if title extraction on its caption (the empty string when there is no caption)
  yields a title, that is a value that passes the test \<open>if title:\<close>: a string that is
  not empty. Otherwise the database is left as it is. A caption that matches neither title
  pattern gives no record, whatever else it holds, and a message that carries neither a
  video nor a document is ignored. The pipeline has no error result.
\<close>

theorem process_inserts_iff_title:
  "(video msg \<noteq> None \<or> document msg \<noteq> None \<longrightarrow>
      ((\<exists>r. media_files (process_channel_message now msg db) = media_files db @ [r]) \<longleftrightarrow>
       (\<exists>t. extract_title (caption_text msg) = Some t \<and> t \<noteq> [])) \<and>
      ((\<nexists>t. extract_title (caption_text msg) = Some t \<and> t \<noteq> []) \<longrightarrow>
         process_channel_message now msg db = db)) \<and>
   (re_search video_marker (caption_text msg) = None \<and>
    re_search pdf_marker (caption_text msg) = None \<longrightarrow>
      process_channel_message now msg db = db) \<and>
   (video msg = None \<and> document msg = None \<longrightarrow> process_channel_message now msg db = db)"
proof (intro conjI impI)
  assume payload: "video msg \<noteq> None \<or> document msg \<noteq> None"
  show "(\<exists>r. media_files (process_channel_message now msg db) = media_files db @ [r]) \<longleftrightarrow>
       (\<exists>t. extract_title (caption_text msg) = Some t \<and> t \<noteq> [])"
  proof (cases "\<exists>t. extract_title (caption_text msg) = Some t \<and> t \<noteq> []")
    case True
    then obtain t where "extract_title (caption_text msg) = Some t" "t \<noteq> []" by blast
    with payload show ?thesis by (simp add: process_insert store_rows)
  next
    case False
    then have "extract_title (caption_text msg) = None \<or> extract_title (caption_text msg) = Some []"
      by (cases "extract_title (caption_text msg)") auto
    then have "process_channel_message now msg db = db" by (rule process_skip)
    with False show ?thesis by simp
  qed
next
  assume "\<nexists>t. extract_title (caption_text msg) = Some t \<and> t \<noteq> []"
  then have "extract_title (caption_text msg) = None \<or> extract_title (caption_text msg) = Some []"
    by (cases "extract_title (caption_text msg)") auto
  then show "process_channel_message now msg db = db" by (rule process_skip)
next
  assume "re_search video_marker (caption_text msg) = None \<and>
    re_search pdf_marker (caption_text msg) = None"
  then have "extract_title (caption_text msg) = None" by (simp add: extract_title_None_iff)
  then show "process_channel_message now msg db = db" by (simp add: process_skip)
next
  assume "video msg = None \<and> document msg = None"
  then show "process_channel_message now msg db = db" by (simp add: process_no_payload)
qed

theorem process_inserts_iff_title_witness:
  "(\<exists>r. media_files (process_channel_message 7
      \<lparr>id_msg = 42, video = Some \<lparr>att_file_id = ascii ''v1''\<rparr>, document = None,
       caption = Some (video_marker @ ascii '' Trees'')\<rparr> init_db) = media_files init_db @ [r]) \<and>
   process_channel_message 7
      \<lparr>id_msg = 43, video = None, document = Some \<lparr>att_file_id = ascii ''d1''\<rparr>,
       caption = Some (course_marker @ ascii '' CS201'')\<rparr> init_db = init_db \<and>
   process_channel_message 7
      \<lparr>id_msg = 44, video = None, document = None,
       caption = Some (video_marker @ ascii '' Trees'')\<rparr> init_db = init_db"
proof -
  let ?m1 = "\<lparr>id_msg = 42, video = Some \<lparr>att_file_id = ascii ''v1''\<rparr>, document = None,
       caption = Some (video_marker @ ascii '' Trees'')\<rparr>"
  let ?m2 = "\<lparr>id_msg = 43, video = None, document = Some \<lparr>att_file_id = ascii ''d1''\<rparr>,
       caption = Some (course_marker @ ascii '' CS201'')\<rparr>"
  let ?m3 = "\<lparr>id_msg = 44, video = None, document = None,
       caption = Some (video_marker @ ascii '' Trees'')\<rparr>"
  have t1: "extract_title (caption_text ?m1) = Some (ascii ''Trees'')"
    by (simp add: eval_defs)
  have t2: "re_search video_marker (caption_text ?m2) = None"
    "re_search pdf_marker (caption_text ?m2) = None"
    by (simp_all add: eval_defs)
  from process_inserts_iff_title [of ?m1 7 init_db] t1
  have "\<exists>r. media_files (process_channel_message 7 ?m1 init_db) = media_files init_db @ [r]"
    by (simp add: ascii_def)
  moreover from process_inserts_iff_title [of ?m2 7 init_db] t2
  have "process_channel_message 7 ?m2 init_db = init_db" by blast
  moreover from process_inserts_iff_title [of ?m3 7 init_db]
  have "process_channel_message 7 ?m3 init_db = init_db" by simp
  ultimately show ?thesis by blast
qed

lemma re_search_SomeD:
  "re_search m s = Some g \<Longrightarrow> \<exists>p r. s = p @ m @ r \<and> match_tail r = Some g"
proof (induction s)
  case Nil
  then show ?case by (auto simp: match_here_def match_literal_iff split: option.splits)
next
  case (Cons c s)
  show ?case
  proof (cases "match_here m (c # s)")
    case None
    with Cons obtain p r where "s = p @ m @ r" "match_tail r = Some g" by auto
    then have "c # s = (c # p) @ m @ r \<and> match_tail r = Some g" by simp
    then show ?thesis by blast
  next
    case (Some g')
    with Cons.prems have "g' = g" by simp
    with Some obtain r where "c # s = [] @ m @ r" "match_tail r = Some g"
      by (auto simp: match_here_def match_literal_iff split: option.splits)
    then show ?thesis by blast
  qed
qed

lemma later_rest: "m @ r = p @ m @ r' \<Longrightarrow> \<exists>q. r = q @ r'"
proof -
  assume eq: "m @ r = p @ m @ r'"
  have "r = drop (length m) (m @ r)" by simp
  also have "\<dots> = drop (length m) ((p @ m) @ r')" using eq by simp
  also have "\<dots> = drop (length m) (p @ m) @ r'" by (simp del: append_assoc)
  finally show ?thesis by blast
qed

lemma find_marker_first:
  "find_marker m s = Some r \<Longrightarrow> s = p @ m @ r' \<Longrightarrow> \<exists>q. r = q @ r'"
proof (induction s arbitrary: p)
  case Nil
  then show ?case by (simp add: match_literal_iff)
next
  case (Cons c s)
  show ?case
  proof (cases "match_literal m (c # s)")
    case (Some r0)
    with Cons.prems(1) have "r0 = r" by simp
    with Some have "c # s = m @ r" by (simp only: match_literal_iff)
    with Cons.prems(2) have "m @ r = p @ m @ r'" by simp
    then show ?thesis by (rule later_rest)
  next
    case None
    with Cons.prems(1) have fm: "find_marker m s = Some r" by simp
    from None have "c # s \<noteq> m @ r'" using match_literal_iff [of m "c # s" r'] by simp
    with Cons.prems(2) obtain p' where "p = c # p'" by (cases p) auto
    with Cons.prems(2) have "s = p' @ m @ r'" by simp
    with fm show ?thesis by (rule Cons.IH)
  qed
qed

lemma re_search_subset:
  assumes "re_search m s = Some g" and "find_marker m s = Some r"
  shows "set g \<subseteq> set r"
proof -
  from assms(1) obtain p r' where s: "s = p @ m @ r'" and mt: "match_tail r' = Some g"
    using re_search_SomeD by blast
  from assms(2) s obtain q where "r = q @ r'" using find_marker_first by blast
  with match_tail_subset [OF mt] show ?thesis by auto
qed

lemma re_search_blank:
  assumes "find_marker m s = Some r" and "\<forall>x\<in>set r. isspace x"
  shows "re_search m s = None \<or> (\<exists>g. re_search m s = Some g \<and> strip g = [])"
proof (cases "re_search m s")
  case None
  then show ?thesis by simp
next
  case (Some g)
  from Some assms(1) have "set g \<subseteq> set r" by (rule re_search_subset)
  with assms(2) have "strip g = []" by (auto intro: strip_all_space)
  with Some show ?thesis by simp
qed

lemma re_search_line_rest:
  assumes "find_marker m s = Some r" and "line_rest r \<noteq> []"
  shows "\<exists>g. re_search m s = Some g \<and> strip g = line_rest r"
proof -
  from assms(2) obtain g where "match_tail r = Some g" "strip g = line_rest r"
    using match_tail_line_rest by blast
  with assms(1) show ?thesis by (auto dest: re_search_first)
qed

lemma contains_None: "\<not> contains m s \<Longrightarrow> re_search m s = None"
  by (simp add: contains_def re_search_absent)

lemma process_rows_insert:
  assumes "video msg \<noteq> None \<or> document msg \<noteq> None"
    and "extract_title (caption_text msg) = Some t" and "t \<noteq> []"
  shows "media_files (process_channel_message now msg db) = media_files db @
     [\<lparr>id_col = Suc (seq db), message_id = id_msg msg,
       file_type = (if video msg \<noteq> None then ascii ''video'' else ascii ''pdf''),
       title = t, course = extract_course (caption_text msg),
       extracted_by = extract_extracted_by (caption_text msg),
       file_id = (case video msg of Some v \<Rightarrow> att_file_id v
                  | None \<Rightarrow> (case document msg of Some d \<Rightarrow> att_file_id d | None \<Rightarrow> [])),
       timestamp = now\<rparr>]"
    and "seq (process_channel_message now msg db) = Suc (seq db)"
  using assms by (simp_all add: process_insert store_rows store_seq)

text \<open>
  C3. Ingestion is not idempotent. Processing the same qualifying message twice (the same
  message id, caption and attachment) appends two records to the table: they carry the
  same message id and the same extracted fields and differ in their row ids. Nothing on
  the insert path looks the message id up, so this holds whatever the table held before.
\<close>

theorem reprocessing_inserts_twice:
  assumes "video msg \<noteq> None \<or> document msg \<noteq> None"
    and "extract_title (caption_text msg) = Some t" and "t \<noteq> []"
  shows "\<exists>r1 r2.
     media_files (process_channel_message now2 msg (process_channel_message now1 msg db)) =
       media_files db @ [r1, r2] \<and>
     r1 \<noteq> r2 \<and> id_col r1 \<noteq> id_col r2 \<and>
     message_id r1 = id_msg msg \<and> message_id r2 = id_msg msg \<and>
     file_type r1 = file_type r2 \<and> title r1 = t \<and> title r2 = t \<and>
     course r1 = course r2 \<and> extracted_by r1 = extracted_by r2 \<and> file_id r1 = file_id r2"
proof -
  let ?db1 = "process_channel_message now1 msg db"
  let ?row = "\<lambda>i now. \<lparr>id_col = i, message_id = id_msg msg,
       file_type = (if video msg \<noteq> None then ascii ''video'' else ascii ''pdf''),
       title = t, course = extract_course (caption_text msg),
       extracted_by = extract_extracted_by (caption_text msg),
       file_id = (case video msg of Some v \<Rightarrow> att_file_id v
                  | None \<Rightarrow> (case document msg of Some d \<Rightarrow> att_file_id d | None \<Rightarrow> [])),
       timestamp = now\<rparr>"
  have r1: "media_files ?db1 = media_files db @ [?row (Suc (seq db)) now1]"
    and s1: "seq ?db1 = Suc (seq db)"
    using assms by (rule process_rows_insert)+
  have "media_files (process_channel_message now2 msg ?db1) =
      media_files ?db1 @ [?row (Suc (seq ?db1)) now2]"
    using assms by (rule process_rows_insert)
  with r1 s1 have "media_files (process_channel_message now2 msg ?db1) =
      media_files db @ [?row (Suc (seq db)) now1, ?row (Suc (Suc (seq db))) now2]"
    by simp
  moreover have "id_col (?row (Suc (seq db)) now1) \<noteq> id_col (?row (Suc (Suc (seq db))) now2)"
    by simp
  ultimately show ?thesis
    by (intro exI [of _ "?row (Suc (seq db)) now1"] exI [of _ "?row (Suc (Suc (seq db))) now2"])
       auto
qed

theorem reprocessing_inserts_twice_witness:
  "\<exists>r1 r2.
     media_files (process_channel_message 8
        \<lparr>id_msg = 42, video = Some \<lparr>att_file_id = ascii ''v1''\<rparr>, document = None,
         caption = Some (video_marker @ ascii '' Trees'')\<rparr>
        (process_channel_message 7
          \<lparr>id_msg = 42, video = Some \<lparr>att_file_id = ascii ''v1''\<rparr>, document = None,
           caption = Some (video_marker @ ascii '' Trees'')\<rparr> init_db)) =
       media_files init_db @ [r1, r2] \<and>
     r1 \<noteq> r2 \<and> id_col r1 \<noteq> id_col r2 \<and> message_id r1 = 42 \<and> message_id r2 = 42 \<and>
     title r1 = ascii ''Trees'' \<and> title r2 = ascii ''Trees'' \<and> file_id r1 = file_id r2"
proof -
  let ?m = "\<lparr>id_msg = 42, video = Some \<lparr>att_file_id = ascii ''v1''\<rparr>, document = None,
         caption = Some (video_marker @ ascii '' Trees'')\<rparr>"
  have p: "video ?m \<noteq> None \<or> document ?m \<noteq> None" by simp
  have t: "extract_title (caption_text ?m) = Some (ascii ''Trees'')"
    by (simp add: eval_defs)
  have n: "ascii ''Trees'' \<noteq> []" by (simp add: ascii_def)
  from reprocessing_inserts_twice [OF p t n, of 8 7 init_db] show ?thesis
    by (simp only: message.simps) blast
qed

lemma extract_course_absent: "\<not> contains course_marker c \<Longrightarrow> extract_course c = ascii ''Unknown''"
  by (simp add: extract_course_def contains_None)

lemma extract_course_line:
  "find_marker course_marker c = Some r \<Longrightarrow> line_rest r \<noteq> [] \<Longrightarrow> extract_course c = line_rest r"
  using re_search_line_rest [of course_marker c r] by (auto simp: extract_course_def)

lemma extract_extracted_by_absent:
  "\<not> contains extracted_marker c \<Longrightarrow> extract_extracted_by c = ascii ''Unknown''"
  by (simp add: extract_extracted_by_def contains_None)

lemma extract_extracted_by_line:
  "find_marker extracted_marker c = Some r \<Longrightarrow> line_rest r \<noteq> [] \<Longrightarrow>
     extract_extracted_by c = line_rest r"
  using re_search_line_rest [of extracted_marker c r] by (auto simp: extract_extracted_by_def)

lemma extract_title_video:
  "re_search video_marker c = Some g \<Longrightarrow> extract_title c = Some (strip g)"
  by (simp add: extract_title_def)

lemma extract_title_video_line:
  "find_marker video_marker c = Some r \<Longrightarrow> line_rest r \<noteq> [] \<Longrightarrow>
     extract_title c = Some (line_rest r)"
  using re_search_line_rest [of video_marker c r] by (auto simp: extract_title_def)

lemma match_tail_None_iff: "match_tail r = None \<longleftrightarrow> list_all (\<lambda>x. x = NL) r"
  using isspace_NL by (induction r) (auto split: option.splits)

lemma match_tail_dropWhile:
  "\<not> list_all isspace r \<Longrightarrow>
     match_tail r = Some (takeWhile (\<lambda>x. x \<noteq> NL) (dropWhile isspace r))"
  by (induction r) auto

lemma line_rest_dropWhile_Nil: "line_rest (dropWhile isspace r) = [] \<longleftrightarrow> list_all isspace r"
proof (cases "dropWhile isspace r")
  case Nil
  then have "list_all isspace r" by (simp add: list_all_iff)
  moreover have "line_rest (dropWhile isspace r) = []"
    unfolding Nil by (simp add: line_rest_def strip_def)
  ultimately show ?thesis by simp
next
  case (Cons x t)
  then have x: "\<not> isspace x" using hd_dropWhile [of isspace r] by auto
  then have "x \<noteq> NL" using isspace_NL by auto
  with x have "line_rest (x # t) \<noteq> []" by (simp add: line_rest_def strip_nonempty)
  moreover have "\<not> list_all isspace r"
  proof
    assume "list_all isspace r"
    then have "dropWhile isspace r = []" by (simp add: list_all_iff)
    with Cons show False by simp
  qed
  ultimately show ?thesis using Cons by simp
qed

lemma re_search_None_iff:
  "re_search m c = None \<longleftrightarrow> \<not> contains m c \<or> newlines_to_end m c"
proof (cases "find_marker m c")
  case None
  then show ?thesis by (simp add: contains_def re_search_absent)
next
  case (Some r)
  show ?thesis
  proof (cases "match_tail r")
    case None
    have "re_search m c = None"
    proof (rule ccontr)
      assume "re_search m c \<noteq> None"
      then obtain g where g: "re_search m c = Some g" by blast
      then obtain p r' where "c = p @ m @ r'" and mt: "match_tail r' = Some g"
        using re_search_SomeD by blast
      with Some obtain q where "r = q @ r'" using find_marker_first by blast
      with None have "list_all (\<lambda>x. x = NL) r'" by (simp add: match_tail_None_iff)
      with mt show False using match_tail_None_iff [of r'] by simp
    qed
    with None Some show ?thesis by (simp add: newlines_to_end_def match_tail_None_iff)
  next
    case (Some g)
    with \<open>find_marker m c = Some r\<close> have "re_search m c = Some g" by (rule re_search_first)
    moreover from Some have "\<not> list_all (\<lambda>x. x = NL) r"
      using match_tail_None_iff [of r] by simp
    ultimately show ?thesis using \<open>find_marker m c = Some r\<close>
      by (simp add: newlines_to_end_def contains_def)
  qed
qed

lemma re_search_value:
  "(case re_search m c of Some g \<Rightarrow> strip g | None \<Rightarrow> u) =
     (if \<not> contains m c \<or> newlines_to_end m c then u else value_after m c)"
proof (cases "\<not> contains m c \<or> newlines_to_end m c")
  case True
  then show ?thesis using re_search_None_iff [of m c] by simp
next
  case False
  then obtain r where r: "find_marker m c = Some r" by (auto simp: contains_def)
  from False obtain g where g: "re_search m c = Some g"
    using re_search_None_iff [of m c] by auto
  have "strip g = line_rest (dropWhile isspace r)"
  proof (cases "list_all isspace r")
    case True
    then have "\<forall>x\<in>set r. isspace x" by (simp add: list_all_iff)
    with r have "strip g = []" using re_search_blank [of m c r] g by auto
    with True show ?thesis using line_rest_dropWhile_Nil [of r] by simp
  next
    case False
    then have "match_tail r = Some (takeWhile (\<lambda>x. x \<noteq> NL) (dropWhile isspace r))"
      by (rule match_tail_dropWhile)
    with r have "re_search m c = Some (takeWhile (\<lambda>x. x \<noteq> NL) (dropWhile isspace r))"
      by (rule re_search_first)
    with g show ?thesis by (simp add: line_rest_def)
  qed
  with False g r show ?thesis by (simp add: value_after_def)
qed

lemma value_after_Nil_iff:
  "\<not> (\<not> contains m c \<or> newlines_to_end m c) \<Longrightarrow> value_after m c = [] \<longleftrightarrow> blank_to_end m c"
  by (auto simp: value_after_def blank_to_end_def newlines_to_end_def contains_def
      line_rest_dropWhile_Nil)

lemma blank_to_end_last: "blank_to_end m c \<Longrightarrow> c \<noteq> [] \<and> isspace (last c)"
proof -
  assume "blank_to_end m c"
  then obtain r where r: "find_marker m c = Some r" "list_all isspace r"
    and n: "\<not> list_all (\<lambda>x. x = NL) r"
    by (auto simp: blank_to_end_def split: option.splits)
  from n have "r \<noteq> []" by auto
  moreover from r obtain p where "c = p @ m @ r" using find_marker_SomeD by blast
  ultimately show ?thesis using r by (auto simp: list_all_iff)
qed

lemma blank_to_end_not_plain: "blank_to_end m c \<Longrightarrow> contains m c \<and> \<not> newlines_to_end m c"
  by (auto simp: blank_to_end_def newlines_to_end_def contains_def split: option.splits)

lemma extract_course_value:
  "extract_course c =
     (if \<not> contains course_marker c \<or> newlines_to_end course_marker c then ascii ''Unknown''
      else value_after course_marker c)"
  unfolding extract_course_def by (rule re_search_value)

lemma extract_extracted_by_value:
  "extract_extracted_by c =
     (if \<not> contains extracted_marker c \<or> newlines_to_end extracted_marker c then ascii ''Unknown''
      else value_after extracted_marker c)"
  unfolding extract_extracted_by_def by (rule re_search_value)

lemma Unknown_nonempty: "ascii ''Unknown'' \<noteq> []"
  by (simp add: ascii_def)

lemma value_empty_iff:
  assumes "v = (if \<not> contains m c \<or> newlines_to_end m c then ascii ''Unknown'' else value_after m c)"
  shows "v = [] \<longleftrightarrow> blank_to_end m c"
proof (cases "\<not> contains m c \<or> newlines_to_end m c")
  case True
  with assms have "v \<noteq> []" by (simp add: Unknown_nonempty)
  moreover from True have "\<not> blank_to_end m c" using blank_to_end_not_plain by blast
  ultimately show ?thesis by simp
next
  case False
  with assms show ?thesis using value_after_Nil_iff [OF False] by simp
qed

lemma extract_course_empty_iff: "extract_course c = [] \<longleftrightarrow> blank_to_end course_marker c"
  using extract_course_value by (rule value_empty_iff)

lemma extract_extracted_by_empty_iff:
  "extract_extracted_by c = [] \<longleftrightarrow> blank_to_end extracted_marker c"
  using extract_extracted_by_value by (rule value_empty_iff)

text \<open>
  C2, as amended. In every stored record the course and extractedBy fields are strings,
  never null, holding what the extractors return on the caption, and each of them is
  non-empty except exactly when the first occurrence of its marker is followed, up to the
  end of the caption, by nothing but whitespace that is not only line feeds: the field is
  the empty string then. So the fields are non-empty for every caption that does not end
  in whitespace. For every caption, an extractor returns the sentinel "Unknown" exactly
  when its marker is absent from the caption, or the first occurrence of the marker is
  followed by nothing but line feeds up to the end of the caption, or the value extracted
  itself reads "Unknown"; in every other case it returns the trimmed remainder of the
  line that begins at the first character after the marker that is not whitespace, which
  is the trimmed remainder of the marker's own line whenever that remainder is not empty.
\<close>

theorem course_and_attribution_values:
  "extract_course c =
     (if \<not> contains course_marker c \<or> newlines_to_end course_marker c then ascii ''Unknown''
      else value_after course_marker c) \<and>
   (extract_course c = [] \<longleftrightarrow> blank_to_end course_marker c) \<and>
   (extract_course c = ascii ''Unknown'' \<longleftrightarrow>
      \<not> contains course_marker c \<or> newlines_to_end course_marker c \<or>
      value_after course_marker c = ascii ''Unknown'') \<and>
   (c = [] \<or> \<not> isspace (last c) \<longrightarrow> extract_course c \<noteq> []) \<and>
   (\<not> contains course_marker c \<longrightarrow> extract_course c = ascii ''Unknown'') \<and>
   (find_marker course_marker c = Some r \<and> line_rest r \<noteq> [] \<longrightarrow>
      extract_course c = line_rest r \<and> extract_course c \<noteq> []) \<and>
   extract_extracted_by c =
     (if \<not> contains extracted_marker c \<or> newlines_to_end extracted_marker c
      then ascii ''Unknown'' else value_after extracted_marker c) \<and>
   (extract_extracted_by c = [] \<longleftrightarrow> blank_to_end extracted_marker c) \<and>
   (extract_extracted_by c = ascii ''Unknown'' \<longleftrightarrow>
      \<not> contains extracted_marker c \<or> newlines_to_end extracted_marker c \<or>
      value_after extracted_marker c = ascii ''Unknown'') \<and>
   (c = [] \<or> \<not> isspace (last c) \<longrightarrow> extract_extracted_by c \<noteq> []) \<and>
   (\<not> contains extracted_marker c \<longrightarrow> extract_extracted_by c = ascii ''Unknown'') \<and>
   (find_marker extracted_marker c = Some r' \<and> line_rest r' \<noteq> [] \<longrightarrow>
      extract_extracted_by c = line_rest r' \<and> extract_extracted_by c \<noteq> []) \<and>
   ascii ''Unknown'' \<noteq> [] \<and>
   ((video msg \<noteq> None \<or> document msg \<noteq> None) \<and>
    extract_title (caption_text msg) = Some t \<and> t \<noteq> [] \<longrightarrow>
      (\<exists>row. media_files (process_channel_message now msg db) = media_files db @ [row] \<and>
         course row = extract_course (caption_text msg) \<and>
         extracted_by row = extract_extracted_by (caption_text msg) \<and>
         (course row = [] \<longleftrightarrow> blank_to_end course_marker (caption_text msg)) \<and>
         (extracted_by row = [] \<longleftrightarrow> blank_to_end extracted_marker (caption_text msg))))"
proof (intro conjI)
  show "extract_course c =
     (if \<not> contains course_marker c \<or> newlines_to_end course_marker c then ascii ''Unknown''
      else value_after course_marker c)"
    by (rule extract_course_value)
  show "extract_extracted_by c =
     (if \<not> contains extracted_marker c \<or> newlines_to_end extracted_marker c
      then ascii ''Unknown'' else value_after extracted_marker c)"
    by (rule extract_extracted_by_value)
  show "extract_course c = [] \<longleftrightarrow> blank_to_end course_marker c"
    by (rule extract_course_empty_iff)
  show "extract_extracted_by c = [] \<longleftrightarrow> blank_to_end extracted_marker c"
    by (rule extract_extracted_by_empty_iff)
  show "extract_course c = ascii ''Unknown'' \<longleftrightarrow>
      \<not> contains course_marker c \<or> newlines_to_end course_marker c \<or>
      value_after course_marker c = ascii ''Unknown''"
    by (auto simp: extract_course_value)
  show "extract_extracted_by c = ascii ''Unknown'' \<longleftrightarrow>
      \<not> contains extracted_marker c \<or> newlines_to_end extracted_marker c \<or>
      value_after extracted_marker c = ascii ''Unknown''"
    by (auto simp: extract_extracted_by_value)
  show "c = [] \<or> \<not> isspace (last c) \<longrightarrow> extract_course c \<noteq> []"
    using blank_to_end_last [of course_marker c] by (auto simp: extract_course_empty_iff)
  show "c = [] \<or> \<not> isspace (last c) \<longrightarrow> extract_extracted_by c \<noteq> []"
    using blank_to_end_last [of extracted_marker c]
    by (auto simp: extract_extracted_by_empty_iff)
  show "\<not> contains course_marker c \<longrightarrow> extract_course c = ascii ''Unknown''"
    by (simp add: extract_course_absent)
  show "\<not> contains extracted_marker c \<longrightarrow> extract_extracted_by c = ascii ''Unknown''"
    by (simp add: extract_extracted_by_absent)
  show "find_marker course_marker c = Some r \<and> line_rest r \<noteq> [] \<longrightarrow>
      extract_course c = line_rest r \<and> extract_course c \<noteq> []"
    by (auto simp: extract_course_line)
  show "find_marker extracted_marker c = Some r' \<and> line_rest r' \<noteq> [] \<longrightarrow>
      extract_extracted_by c = line_rest r' \<and> extract_extracted_by c \<noteq> []"
    by (auto simp: extract_extracted_by_line)
  show "ascii ''Unknown'' \<noteq> []" by (rule Unknown_nonempty)
  show "(video msg \<noteq> None \<or> document msg \<noteq> None) \<and>
    extract_title (caption_text msg) = Some t \<and> t \<noteq> [] \<longrightarrow>
      (\<exists>row. media_files (process_channel_message now msg db) = media_files db @ [row] \<and>
         course row = extract_course (caption_text msg) \<and>
         extracted_by row = extract_extracted_by (caption_text msg) \<and>
         (course row = [] \<longleftrightarrow> blank_to_end course_marker (caption_text msg)) \<and>
         (extracted_by row = [] \<longleftrightarrow> blank_to_end extracted_marker (caption_text msg)))"
    by (auto simp: process_rows_insert extract_course_empty_iff extract_extracted_by_empty_iff)
qed

theorem course_and_attribution_values_witness:
  "extract_course (video_marker @ ascii '' Trees'' @ [NL] @ extracted_marker @ ascii '' bob '') =
     ascii ''Unknown'' \<and>
   extract_extracted_by (video_marker @ ascii '' Trees'' @ [NL] @ extracted_marker @ ascii '' bob '') =
     ascii ''bob'' \<and>
   extract_course (course_marker @ ascii '' CS201'' @ [NL] @ pdf_marker @ ascii '' Notes'') =
     ascii ''CS201'' \<and>
   extract_extracted_by (course_marker @ ascii '' CS201'' @ [NL] @ pdf_marker @ ascii '' Notes'') =
     ascii ''Unknown'' \<and>
   (\<exists>row. media_files (process_channel_message 7
       \<lparr>id_msg = 42, video = None, document = Some \<lparr>att_file_id = ascii ''d1''\<rparr>,
        caption = Some (course_marker @ ascii '' CS201'' @ [NL] @ pdf_marker @ ascii '' Notes'')\<rparr>
       init_db) = media_files init_db @ [row] \<and>
      course row = ascii ''CS201'' \<and> extracted_by row = ascii ''Unknown'' \<and>
      course row \<noteq> [] \<and> extracted_by row \<noteq> []) \<and>
   extract_course (pdf_marker @ ascii '' Notes'' @ [NL] @ course_marker @ ascii '' '') = [] \<and>
   extract_course (pdf_marker @ ascii '' Notes'' @ [NL] @ course_marker @ [NL]) =
     ascii ''Unknown'' \<and>
   extract_course (course_marker @ [NL] @ ascii '' CS201 '' @ [NL] @ ascii ''more'') =
     ascii ''CS201'' \<and>
   extract_extracted_by (course_marker @ ascii '' CS201'' @ [NL] @ pdf_marker @ ascii '' Notes'') \<noteq> []"
proof -
  let ?c1 = "video_marker @ ascii '' Trees'' @ [NL] @ extracted_marker @ ascii '' bob ''"
  let ?c2 = "course_marker @ ascii '' CS201'' @ [NL] @ pdf_marker @ ascii '' Notes''"
  let ?c3 = "pdf_marker @ ascii '' Notes'' @ [NL] @ course_marker @ ascii '' ''"
  let ?c4 = "pdf_marker @ ascii '' Notes'' @ [NL] @ course_marker @ [NL]"
  let ?c5 = "course_marker @ [NL] @ ascii '' CS201 '' @ [NL] @ ascii ''more''"
  let ?m = "\<lparr>id_msg = 42, video = None, document = Some \<lparr>att_file_id = ascii ''d1''\<rparr>,
        caption = Some ?c2\<rparr>"
  have a1: "\<not> contains course_marker ?c1"
    by (simp add: contains_def eval_defs)
  have a2: "find_marker extracted_marker ?c1 = Some (ascii '' bob '')"
    by (simp add: eval_defs)
  have a3: "line_rest (ascii '' bob '') = ascii ''bob''"
    by (simp add: line_rest_def eval_defs)
  have b1: "find_marker course_marker ?c2 = Some (ascii '' CS201'' @ [NL] @ pdf_marker @ ascii '' Notes'')"
    by (simp add: eval_defs)
  have b2: "line_rest (ascii '' CS201'' @ [NL] @ pdf_marker @ ascii '' Notes'') = ascii ''CS201''"
    by (simp add: line_rest_def eval_defs)
  have b3: "\<not> contains extracted_marker ?c2"
    by (simp add: contains_def eval_defs)
  have b4: "extract_title (caption_text ?m) = Some (ascii ''Notes'')"
    by (simp add: eval_defs)
  have b5: "?c2 \<noteq> [] \<and> \<not> isspace (last ?c2)"
    by (simp add: eval_defs)
  have d3: "blank_to_end course_marker ?c3"
    by (simp add: blank_to_end_def eval_defs)
  have d4: "newlines_to_end course_marker ?c4"
    by (simp add: newlines_to_end_def eval_defs)
  have d5: "contains course_marker ?c5" "\<not> newlines_to_end course_marker ?c5"
    "value_after course_marker ?c5 = ascii ''CS201''"
    by (simp_all add: contains_def newlines_to_end_def value_after_def line_rest_def eval_defs)
  have ne: "ascii ''bob'' \<noteq> []" "ascii ''CS201'' \<noteq> []" "ascii ''Notes'' \<noteq> []"
    "ascii ''Unknown'' \<noteq> []"
    by (simp_all add: ascii_def)
  have ct: "caption_text ?m = ?c2" by (simp add: caption_text_def)
  note t1 = course_and_attribution_values
    [of ?c1 "[]" "ascii '' bob ''" ?m "ascii ''Notes''" 7 init_db]
  note t2 = course_and_attribution_values
    [of ?c2 "ascii '' CS201'' @ [NL] @ pdf_marker @ ascii '' Notes''" "[]" ?m "ascii ''Notes''" 7 init_db]
  note t3 = course_and_attribution_values [of ?c3 "[]" "[]" ?m "ascii ''Notes''" 7 init_db]
  note t4 = course_and_attribution_values [of ?c4 "[]" "[]" ?m "ascii ''Notes''" 7 init_db]
  note t5 = course_and_attribution_values [of ?c5 "[]" "[]" ?m "ascii ''Notes''" 7 init_db]
  have l1: "line_rest (ascii '' bob '') \<noteq> []" using a3 ne by simp
  have l2: "line_rest (ascii '' CS201'' @ [NL] @ pdf_marker @ ascii '' Notes'') \<noteq> []"
    using b2 ne by simp
  from t1 [THEN conjunct2, THEN conjunct2, THEN conjunct2, THEN conjunct2, THEN conjunct1] a1
  have r1: "extract_course ?c1 = ascii ''Unknown''" by (rule mp)
  from t1 [THEN conjunct2, THEN conjunct2, THEN conjunct2, THEN conjunct2, THEN conjunct2, THEN conjunct2, THEN conjunct2, THEN conjunct2, THEN conjunct2, THEN conjunct2, THEN conjunct2, THEN conjunct1] a2 l1
  have "extract_extracted_by ?c1 = line_rest (ascii '' bob '')" by blast
  then have r2: "extract_extracted_by ?c1 = ascii ''bob''" using a3 by simp
  from t2 [THEN conjunct2, THEN conjunct2, THEN conjunct2, THEN conjunct2, THEN conjunct2, THEN conjunct1] b1 l2
  have "extract_course ?c2 = line_rest (ascii '' CS201'' @ [NL] @ pdf_marker @ ascii '' Notes'')"
    by blast
  then have c2: "extract_course ?c2 = ascii ''CS201''" using b2 by simp
  from t2 [THEN conjunct2, THEN conjunct2, THEN conjunct2, THEN conjunct2, THEN conjunct2, THEN conjunct2, THEN conjunct2, THEN conjunct2, THEN conjunct2, THEN conjunct2, THEN conjunct1] b3
  have e2: "extract_extracted_by ?c2 = ascii ''Unknown''" by (rule mp)
  have p: "video ?m \<noteq> None \<or> document ?m \<noteq> None" by simp
  from p b4 ne(3)
  have prem: "(video ?m \<noteq> None \<or> document ?m \<noteq> None) \<and>
      extract_title (caption_text ?m) = Some (ascii ''Notes'') \<and> ascii ''Notes'' \<noteq> []"
    by (intro conjI)
  from t2 [THEN conjunct2, THEN conjunct2, THEN conjunct2, THEN conjunct2, THEN conjunct2, THEN conjunct2, THEN conjunct2, THEN conjunct2, THEN conjunct2, THEN conjunct2, THEN conjunct2, THEN conjunct2, THEN conjunct2] prem
  have "\<exists>row. media_files (process_channel_message 7 ?m init_db) = media_files init_db @ [row] \<and>
         course row = extract_course (caption_text ?m) \<and>
         extracted_by row = extract_extracted_by (caption_text ?m) \<and>
         (course row = [] \<longleftrightarrow> blank_to_end course_marker (caption_text ?m)) \<and>
         (extracted_by row = [] \<longleftrightarrow> blank_to_end extracted_marker (caption_text ?m))"
    by (rule mp)
  then obtain row where row: "media_files (process_channel_message 7 ?m init_db) =
      media_files init_db @ [row]" "course row = extract_course (caption_text ?m)"
      "extracted_by row = extract_extracted_by (caption_text ?m)"
    by blast
  from row(2,3) have "course row = ascii ''CS201''" "extracted_by row = ascii ''Unknown''"
    unfolding ct c2 e2 by simp_all
  with row(1) have "\<exists>row. media_files (process_channel_message 7 ?m init_db) =
      media_files init_db @ [row] \<and> course row = ascii ''CS201'' \<and>
      extracted_by row = ascii ''Unknown''"
    by blast
  then have r5: "\<exists>row. media_files (process_channel_message 7 ?m init_db) =
      media_files init_db @ [row] \<and> course row = ascii ''CS201'' \<and>
      extracted_by row = ascii ''Unknown'' \<and> course row \<noteq> [] \<and> extracted_by row \<noteq> []"
    using ne by auto
  from t3 [THEN conjunct2, THEN conjunct1] d3
  have r6: "extract_course ?c3 = []" by blast
  from t4 [THEN conjunct2, THEN conjunct2, THEN conjunct1] d4
  have r7: "extract_course ?c4 = ascii ''Unknown''" by blast
  have "extract_course ?c5 =
     (if \<not> contains course_marker ?c5 \<or> newlines_to_end course_marker ?c5
      then ascii ''Unknown'' else value_after course_marker ?c5)"
    by (rule t5 [THEN conjunct1])
  then have r8: "extract_course ?c5 = ascii ''CS201''" using d5 by simp
  from t2 [THEN conjunct2, THEN conjunct2, THEN conjunct2, THEN conjunct2, THEN conjunct2, THEN conjunct2, THEN conjunct2, THEN conjunct2, THEN conjunct2, THEN conjunct1] b5
  have r9: "extract_extracted_by ?c2 \<noteq> []" by blast
  from r1 r2 c2 e2 r5 r6 r7 r8 r9 show ?thesis by (intro conjI)
qed

text \<open>
  C2 as it is stated fails twice. A course marker that is followed by a blank and the end
  of the caption is present, yet the course extracted and stored is the empty string. And
  a course marker that ends the caption is present, yet the course extracted is the
  sentinel "Unknown".
\<close>

theorem blank_course_counterexample:
  "contains course_marker (video_marker @ ascii '' Trees'' @ [NL] @ course_marker @ ascii '' '') \<and>
   extract_course (video_marker @ ascii '' Trees'' @ [NL] @ course_marker @ ascii '' '') = [] \<and>
   media_files (process_channel_message 7
       \<lparr>id_msg = 42, video = Some \<lparr>att_file_id = ascii ''v1''\<rparr>, document = None,
        caption = Some (video_marker @ ascii '' Trees'' @ [NL] @ course_marker @ ascii '' '')\<rparr>
       init_db) =
     [\<lparr>id_col = 1, message_id = 42, file_type = ascii ''video'', title = ascii ''Trees'',
       course = [], extracted_by = ascii ''Unknown'', file_id = ascii ''v1'', timestamp = 7\<rparr>] \<and>
   contains course_marker (video_marker @ ascii '' Trees'' @ [NL] @ course_marker) \<and>
   extract_course (video_marker @ ascii '' Trees'' @ [NL] @ course_marker) = ascii ''Unknown''"
  by (simp add: contains_def process_channel_message_def store_media_data_def init_db_def
      eval_defs)

text \<open>
  C4, as amended. Title extraction returns a title and no media kind. For every caption in
  which the first occurrence of the video-title marker is followed on the same line by a
  character that is not whitespace, the title is the trimmed remainder of that line,
  whether or not the document-title marker occurs too; whenever the video pattern matches,
  its group is the one returned, so the video pattern wins over the document pattern. The
  stored kind comes from the attachment of the message: "video" when it carries a video,
  also when it carries a document as well, and "pdf" when it carries a document only; the
  stored file id is taken from the same attachment.
\<close>

theorem video_title_and_kind:
  "(find_marker video_marker c = Some r \<and> line_rest r \<noteq> [] \<longrightarrow>
      extract_title c = Some (line_rest r)) \<and>
   (re_search video_marker c = Some g \<longrightarrow> extract_title c = Some (strip g)) \<and>
   (video msg = Some v \<and> extract_title (caption_text msg) = Some t \<and> t \<noteq> [] \<longrightarrow>
      (\<exists>row. media_files (process_channel_message now msg db) = media_files db @ [row] \<and>
         file_type row = ascii ''video'' \<and> file_id row = att_file_id v \<and> title row = t)) \<and>
   (video msg = None \<and> document msg = Some d \<and>
    extract_title (caption_text msg) = Some t \<and> t \<noteq> [] \<longrightarrow>
      (\<exists>row. media_files (process_channel_message now msg db) = media_files db @ [row] \<and>
         file_type row = ascii ''pdf'' \<and> file_id row = att_file_id d \<and> title row = t))"
  by (auto simp: extract_title_video extract_title_video_line process_rows_insert)

theorem video_title_and_kind_witness:
  "extract_title (pdf_marker @ ascii '' Notes'' @ [NL] @ video_marker @ ascii ''  Trees '' @ [NL]) =
     Some (ascii ''Trees'') \<and>
   (\<exists>row. media_files (process_channel_message 7
       \<lparr>id_msg = 42, video = Some \<lparr>att_file_id = ascii ''v1''\<rparr>,
        document = Some \<lparr>att_file_id = ascii ''d1''\<rparr>,
        caption = Some (pdf_marker @ ascii '' Notes'' @ [NL] @ video_marker @ ascii ''  Trees '' @ [NL])\<rparr>
       init_db) = media_files init_db @ [row] \<and>
      file_type row = ascii ''video'' \<and> file_id row = ascii ''v1'' \<and> title row = ascii ''Trees'') \<and>
   (\<exists>row. media_files (process_channel_message 7
       \<lparr>id_msg = 43, video = None, document = Some \<lparr>att_file_id = ascii ''d1''\<rparr>,
        caption = Some (pdf_marker @ ascii '' Notes'' @ [NL] @ video_marker @ ascii ''  Trees '' @ [NL])\<rparr>
       init_db) = media_files init_db @ [row] \<and>
      file_type row = ascii ''pdf'' \<and> file_id row = ascii ''d1'' \<and> title row = ascii ''Trees'')"
proof -
  let ?c = "pdf_marker @ ascii '' Notes'' @ [NL] @ video_marker @ ascii ''  Trees '' @ [NL]"
  let ?m1 = "\<lparr>id_msg = 42, video = Some \<lparr>att_file_id = ascii ''v1''\<rparr>,
        document = Some \<lparr>att_file_id = ascii ''d1''\<rparr>, caption = Some ?c\<rparr>"
  let ?m2 = "\<lparr>id_msg = 43, video = None, document = Some \<lparr>att_file_id = ascii ''d1''\<rparr>,
        caption = Some ?c\<rparr>"
  have f: "find_marker video_marker ?c = Some (ascii ''  Trees '' @ [NL])"
    by (simp add: eval_defs)
  have l: "line_rest (ascii ''  Trees '' @ [NL]) = ascii ''Trees''"
    by (simp add: line_rest_def eval_defs)
  have ne: "ascii ''Trees'' \<noteq> []" by (simp add: ascii_def)
  have p: "re_search pdf_marker ?c = Some (ascii ''Notes'')"
    by (simp add: eval_defs)
  have ct: "caption_text ?m1 = ?c" "caption_text ?m2 = ?c" by (simp_all add: caption_text_def)
  note t1 = video_title_and_kind
    [of ?c "ascii ''  Trees '' @ [NL]" "[]" ?m1 "\<lparr>att_file_id = ascii ''v1''\<rparr>" "ascii ''Trees''"
      7 init_db "\<lparr>att_file_id = ascii ''d1''\<rparr>"]
  note t2 = video_title_and_kind
    [of ?c "ascii ''  Trees '' @ [NL]" "[]" ?m2 "\<lparr>att_file_id = ascii ''v1''\<rparr>" "ascii ''Trees''"
      7 init_db "\<lparr>att_file_id = ascii ''d1''\<rparr>"]
  from t1 f l ne have e: "extract_title ?c = Some (ascii ''Trees'')" by simp
  moreover from t1 e ne have "\<exists>row. media_files (process_channel_message 7 ?m1 init_db) =
      media_files init_db @ [row] \<and> file_type row = ascii ''video'' \<and>
      file_id row = ascii ''v1'' \<and> title row = ascii ''Trees''"
    unfolding ct by simp
  moreover from t2 e ne have "\<exists>row. media_files (process_channel_message 7 ?m2 init_db) =
      media_files init_db @ [row] \<and> file_type row = ascii ''pdf'' \<and>
      file_id row = ascii ''d1'' \<and> title row = ascii ''Trees''"
    unfolding ct by simp
  ultimately show ?thesis by blast
qed

text \<open>
  C4 as it is stated fails: the caption below contains the video-title marker and not the
  document-title marker, the remainder of the marker's line is empty, and the title
  extracted is the text of the next line.
\<close>

theorem title_from_next_line_counterexample:
  "contains video_marker (video_marker @ [NL] @ ascii ''Trees'') \<and>
   \<not> contains pdf_marker (video_marker @ [NL] @ ascii ''Trees'') \<and>
   find_marker video_marker (video_marker @ [NL] @ ascii ''Trees'') = Some ([NL] @ ascii ''Trees'') \<and>
   line_rest ([NL] @ ascii ''Trees'') = [] \<and>
   extract_title (video_marker @ [NL] @ ascii ''Trees'') = Some (ascii ''Trees'') \<and>
   extract_title (video_marker @ [NL] @ ascii ''Trees'') \<noteq> Some (line_rest ([NL] @ ascii ''Trees''))"
  by (simp add: contains_def line_rest_def eval_defs)

text \<open>
  C9, as amended. Processing a video message whose caption has the three lines
  "<video-title marker> Intro to Graphs", "<course marker> CS201" and
  "<attribution marker> alice", every marker written out as the pattern of the source
  has it, glyphs included, stores a record of kind "video" with title "Intro to Graphs",
  course "CS201" and extractedBy "alice".
\<close>

theorem example_caption_with_markers:
  "media_files (process_channel_message 7
       \<lparr>id_msg = 42, video = Some \<lparr>att_file_id = ascii ''v1''\<rparr>, document = None,
        caption = Some (video_marker @ ascii '' Intro to Graphs'' @ [NL] @
                        course_marker @ ascii '' CS201'' @ [NL] @
                        extracted_marker @ ascii '' alice'')\<rparr> init_db) =
     [\<lparr>id_col = 1, message_id = 42, file_type = ascii ''video'',
       title = ascii ''Intro to Graphs'', course = ascii ''CS201'',
       extracted_by = ascii ''alice'', file_id = ascii ''v1'', timestamp = 7\<rparr>]"
  by (simp add: process_channel_message_def store_media_data_def init_db_def eval_defs)

theorem example_caption_with_markers_witness:
  "\<exists>row. media_files (process_channel_message 7
       \<lparr>id_msg = 42, video = Some \<lparr>att_file_id = ascii ''v1''\<rparr>, document = None,
        caption = Some (video_marker @ ascii '' Intro to Graphs'' @ [NL] @
                        course_marker @ ascii '' CS201'' @ [NL] @
                        extracted_marker @ ascii '' alice'')\<rparr> init_db) = [row] \<and>
     file_type row = ascii ''video'' \<and> title row = ascii ''Intro to Graphs'' \<and>
     course row = ascii ''CS201'' \<and> extracted_by row = ascii ''alice''"
  using example_caption_with_markers by simp

text \<open>
  C9 as it is stated fails: the caption of the example spells the markers "Title",
  "Course :" and "Extracted By" without the glyphs that the patterns of the source begin
  with (187 is the code point of the separator of the example), so no title pattern
  matches and nothing is stored.
\<close>

theorem example_caption_counterexample:
  "media_files (process_channel_message 7
       \<lparr>id_msg = 42, video = Some \<lparr>att_file_id = ascii ''v1''\<rparr>, document = None,
        caption = Some (ascii ''Title '' @ [187] @ ascii '' Intro to Graphs'' @ [NL] @
                        ascii ''Course : CS201'' @ [NL] @
                        ascii ''Extracted By '' @ [187] @ ascii '' alice'')\<rparr> init_db) = []"
  by (simp add: process_channel_message_def store_media_data_def init_db_def eval_defs)

lemma process_titles:
  assumes "\<forall>r\<in>set (media_files db). title r \<noteq> []"
  shows "\<forall>r\<in>set (media_files (process_channel_message now msg db)). title r \<noteq> []"
proof (cases "(video msg \<noteq> None \<or> document msg \<noteq> None) \<and>
    (\<exists>t. extract_title (caption_text msg) = Some t \<and> t \<noteq> [])")
  case True
  then obtain t where "video msg \<noteq> None \<or> document msg \<noteq> None"
    "extract_title (caption_text msg) = Some t" "t \<noteq> []" by blast
  with assms show ?thesis by (simp add: process_rows_insert)
next
  case False
  then have "process_channel_message now msg db = db"
    by (cases "extract_title (caption_text msg)") (auto simp: process_skip process_no_payload)
  with assms show ?thesis by simp
qed

lemma run_monitor_titles:
  "\<forall>r\<in>set (media_files db). title r \<noteq> [] \<Longrightarrow>
   \<forall>r\<in>set (media_files (run_monitor events db)). title r \<noteq> []"
proof (induction events arbitrary: db)
  case Nil
  then show ?case by (simp add: run_monitor_def)
next
  case (Cons e events)
  obtain now msg where e: "e = (now, msg)" by (cases e)
  have "run_monitor (e # events) db = run_monitor events (process_channel_message now msg db)"
    by (simp add: run_monitor_def e)
  with Cons.IH [OF process_titles [OF Cons.prems]] show ?case by simp
qed

lemma extract_title_blank_video:
  assumes "find_marker video_marker c = Some r" and "\<forall>x\<in>set r. isspace x"
    and "\<not> contains pdf_marker c"
  shows "extract_title c = None \<or> extract_title c = Some []"
  using re_search_blank [OF assms(1,2)] contains_None [OF assms(3)]
  by (auto simp: extract_title_def)

lemma extract_title_blank_pdf:
  assumes "\<not> contains video_marker c" and "find_marker pdf_marker c = Some r"
    and "\<forall>x\<in>set r. isspace x"
  shows "extract_title c = None \<or> extract_title c = Some []"
  using re_search_blank [OF assms(2,3)] contains_None [OF assms(1)]
  by (auto simp: extract_title_def)

text \<open>
  C10, as amended. Every stored record has a non-empty title: the test \<open>if title:\<close>
  rejects an extracted title that is the empty string, and no record is inserted then. In
  particular, when a caption holds only one of the two title markers and the first
  occurrence of that marker is followed by nothing but whitespace up to the end of the
  caption, no record is inserted.
\<close>

theorem stored_titles_nonempty:
  "(\<forall>row\<in>set (media_files (run_monitor events init_db)). title row \<noteq> []) \<and>
   ((\<forall>row\<in>set (media_files db). title row \<noteq> []) \<longrightarrow>
      (\<forall>row\<in>set (media_files (process_channel_message now msg db)). title row \<noteq> [])) \<and>
   (extract_title (caption_text msg) = Some [] \<longrightarrow> process_channel_message now msg db = db) \<and>
   (find_marker video_marker (caption_text msg) = Some r \<and> (\<forall>x\<in>set r. isspace x) \<and>
    \<not> contains pdf_marker (caption_text msg) \<longrightarrow>
      process_channel_message now msg db = db) \<and>
   (\<not> contains video_marker (caption_text msg) \<and>
    find_marker pdf_marker (caption_text msg) = Some r \<and> (\<forall>x\<in>set r. isspace x) \<longrightarrow>
      process_channel_message now msg db = db)"
proof (intro conjI impI)
  show "\<forall>row\<in>set (media_files (run_monitor events init_db)). title row \<noteq> []"
    by (rule run_monitor_titles) (simp add: init_db_def)
next
  assume "\<forall>row\<in>set (media_files db). title row \<noteq> []"
  then show "\<forall>row\<in>set (media_files (process_channel_message now msg db)). title row \<noteq> []"
    by (rule process_titles)
next
  assume "extract_title (caption_text msg) = Some []"
  then show "process_channel_message now msg db = db" by (simp add: process_skip)
next
  assume "find_marker video_marker (caption_text msg) = Some r \<and> (\<forall>x\<in>set r. isspace x) \<and>
    \<not> contains pdf_marker (caption_text msg)"
  then have "extract_title (caption_text msg) = None \<or> extract_title (caption_text msg) = Some []"
    using extract_title_blank_video [of "caption_text msg" r] by blast
  then show "process_channel_message now msg db = db" by (rule process_skip)
next
  assume "\<not> contains video_marker (caption_text msg) \<and>
    find_marker pdf_marker (caption_text msg) = Some r \<and> (\<forall>x\<in>set r. isspace x)"
  then have "extract_title (caption_text msg) = None \<or> extract_title (caption_text msg) = Some []"
    using extract_title_blank_pdf [of "caption_text msg" r] by blast
  then show "process_channel_message now msg db = db" by (rule process_skip)
qed

theorem stored_titles_nonempty_witness:
  "[] \<notin> set (map title (media_files (run_monitor
       [(7, \<lparr>id_msg = 42, video = Some \<lparr>att_file_id = ascii ''v1''\<rparr>, document = None,
              caption = Some (video_marker @ ascii '' Trees'')\<rparr>),
        (8, \<lparr>id_msg = 43, video = Some \<lparr>att_file_id = ascii ''v2''\<rparr>, document = None,
              caption = Some (video_marker @ ascii ''  '' @ [NL])\<rparr>)] init_db))) \<and>
   media_files (run_monitor
       [(7, \<lparr>id_msg = 42, video = Some \<lparr>att_file_id = ascii ''v1''\<rparr>, document = None,
              caption = Some (video_marker @ ascii '' Trees'')\<rparr>),
        (8, \<lparr>id_msg = 43, video = Some \<lparr>att_file_id = ascii ''v2''\<rparr>, document = None,
              caption = Some (video_marker @ ascii ''  '' @ [NL])\<rparr>)] init_db) \<noteq> [] \<and>
   process_channel_message 8
      \<lparr>id_msg = 43, video = Some \<lparr>att_file_id = ascii ''v2''\<rparr>, document = None,
       caption = Some (video_marker @ ascii ''  '' @ [NL])\<rparr> init_db = init_db \<and>
   process_channel_message 8
      \<lparr>id_msg = 44, video = None, document = Some \<lparr>att_file_id = ascii ''d2''\<rparr>,
       caption = Some (pdf_marker @ ascii '' '')\<rparr> init_db = init_db"
proof -
  let ?m1 = "\<lparr>id_msg = 42, video = Some \<lparr>att_file_id = ascii ''v1''\<rparr>, document = None,
              caption = Some (video_marker @ ascii '' Trees'')\<rparr>"
  let ?m2 = "\<lparr>id_msg = 43, video = Some \<lparr>att_file_id = ascii ''v2''\<rparr>, document = None,
              caption = Some (video_marker @ ascii ''  '' @ [NL])\<rparr>"
  let ?m3 = "\<lparr>id_msg = 44, video = None, document = Some \<lparr>att_file_id = ascii ''d2''\<rparr>,
       caption = Some (pdf_marker @ ascii '' '')\<rparr>"
  have v: "find_marker video_marker (caption_text ?m2) = Some (ascii ''  '' @ [NL])"
    "\<forall>x\<in>set (ascii ''  '' @ [NL]). isspace x" "\<not> contains pdf_marker (caption_text ?m2)"
    by (simp_all add: contains_def eval_defs)
  have p: "\<not> contains video_marker (caption_text ?m3)"
    "find_marker pdf_marker (caption_text ?m3) = Some (ascii '' '')"
    "\<forall>x\<in>set (ascii '' ''). isspace x"
    by (simp_all add: contains_def eval_defs)
  have n: "media_files (run_monitor [(7, ?m1), (8, ?m2)] init_db) \<noteq> []"
    by (simp add: run_monitor_def process_channel_message_def store_media_data_def init_db_def
        eval_defs)
  from stored_titles_nonempty [of "[(7, ?m1), (8, ?m2)]" init_db 8 ?m2 "ascii ''  '' @ [NL]"] v
  have "[] \<notin> set (map title (media_files (run_monitor [(7, ?m1), (8, ?m2)] init_db)))"
    and "process_channel_message 8 ?m2 init_db = init_db"
    by auto
  moreover from stored_titles_nonempty [of "[]" init_db 8 ?m3 "ascii '' ''"] p
  have "process_channel_message 8 ?m3 init_db = init_db" by blast
  ultimately show ?thesis using n by blast
qed

text \<open>
  C10 as it is stated fails: in the caption below the video-title marker is followed by
  whitespace only up to the end of its line (the trimmed remainder of the line is empty),
  and a record is inserted all the same, with
  the text of the next line as its title.
\<close>

theorem blank_title_line_counterexample:
  "find_marker video_marker (video_marker @ ascii '' '' @ [NL] @ ascii ''Trees'') =
     Some (ascii '' '' @ [NL] @ ascii ''Trees'') \<and>
   line_rest (ascii '' '' @ [NL] @ ascii ''Trees'') = [] \<and>
   media_files (process_channel_message 7
       \<lparr>id_msg = 42, video = Some \<lparr>att_file_id = ascii ''v1''\<rparr>, document = None,
        caption = Some (video_marker @ ascii '' '' @ [NL] @ ascii ''Trees'')\<rparr> init_db) =
     [\<lparr>id_col = 1, message_id = 42, file_type = ascii ''video'', title = ascii ''Trees'',
       course = ascii ''Unknown'', extracted_by = ascii ''Unknown'', file_id = ascii ''v1'',
       timestamp = 7\<rparr>]"
  by (simp add: line_rest_def process_channel_message_def store_media_data_def init_db_def eval_defs)

lemma order_by_timestamp_desc_sorted: "timestamp_desc (order_by_timestamp_desc rs)"
proof -
  have "sorted (map (\<lambda>r. - int (timestamp r)) (sort_key (\<lambda>r. - int (timestamp r)) rs))"
    by (rule sorted_sort_key)
  then show ?thesis
    by (simp add: timestamp_desc_def order_by_timestamp_desc_def sorted_map)
qed

lemma order_by_timestamp_desc_mset: "mset (order_by_timestamp_desc rs) = mset rs"
  by (simp add: order_by_timestamp_desc_def)

lemma order_by_timestamp_desc_Nil: "order_by_timestamp_desc rs = [] \<longleftrightarrow> rs = []"
  using order_by_timestamp_desc_mset [of rs] by (metis mset_zero_iff)

text \<open>
  C5, as amended. Every retrieval from the store, the unfiltered listing as well as the
  listing filtered by kind, returns records in descending order of createdAt; the queries
  name no second key, so the order of records with equal createdAt is not one the code
  asks for. The unfiltered listing returns exactly the records of the store, and the
  listing filtered by a kind returns exactly the records whose mediaKind equals that
  kind.
\<close>

theorem retrieval_order_and_filter:
  "timestamp_desc (get_media_files kind db) \<and>
   mset (get_media_files None db) = mset (media_files db) \<and>
   (k \<noteq> [] \<longrightarrow>
      mset (get_media_files (Some k) db) = mset (filter (\<lambda>r. file_type r = k) (media_files db)) \<and>
      set (get_media_files (Some k) db) = {r \<in> set (media_files db). file_type r = k})"
proof (intro conjI impI)
  show "timestamp_desc (get_media_files kind db)"
    by (simp add: get_media_files_def order_by_timestamp_desc_sorted split: option.splits)
  show "mset (get_media_files None db) = mset (media_files db)"
    by (simp add: get_media_files_def order_by_timestamp_desc_mset)
next
  assume k: "k \<noteq> []"
  then show m: "mset (get_media_files (Some k) db) =
      mset (filter (\<lambda>r. file_type r = k) (media_files db))"
    by (simp add: get_media_files_def order_by_timestamp_desc_mset)
  have "set (get_media_files (Some k) db) = set (filter (\<lambda>r. file_type r = k) (media_files db))"
    using m by (rule mset_eq_setD)
  then show "set (get_media_files (Some k) db) = {r \<in> set (media_files db). file_type r = k}"
    by simp
qed

lemmas run_defs = run_monitor_def process_channel_message_def store_media_data_def init_db_def

theorem retrieval_order_and_filter_witness:
  "timestamp_desc (get_media_files (Some (ascii ''video''))
      (run_monitor
        [(7, \<lparr>id_msg = 42, video = Some \<lparr>att_file_id = ascii ''v1''\<rparr>, document = None,
               caption = Some (video_marker @ ascii '' Trees'')\<rparr>),
         (9, \<lparr>id_msg = 43, video = None, document = Some \<lparr>att_file_id = ascii ''d1''\<rparr>,
               caption = Some (pdf_marker @ ascii '' Notes'')\<rparr>)] init_db)) \<and>
   set (get_media_files (Some (ascii ''video''))
      (run_monitor
        [(7, \<lparr>id_msg = 42, video = Some \<lparr>att_file_id = ascii ''v1''\<rparr>, document = None,
               caption = Some (video_marker @ ascii '' Trees'')\<rparr>),
         (9, \<lparr>id_msg = 43, video = None, document = Some \<lparr>att_file_id = ascii ''d1''\<rparr>,
               caption = Some (pdf_marker @ ascii '' Notes'')\<rparr>)] init_db)) =
     {\<lparr>id_col = 1, message_id = 42, file_type = ascii ''video'', title = ascii ''Trees'',
       course = ascii ''Unknown'', extracted_by = ascii ''Unknown'', file_id = ascii ''v1'',
       timestamp = 7\<rparr>}"
proof -
  let ?db = "run_monitor
        [(7, \<lparr>id_msg = 42, video = Some \<lparr>att_file_id = ascii ''v1''\<rparr>, document = None,
               caption = Some (video_marker @ ascii '' Trees'')\<rparr>),
         (9, \<lparr>id_msg = 43, video = None, document = Some \<lparr>att_file_id = ascii ''d1''\<rparr>,
               caption = Some (pdf_marker @ ascii '' Notes'')\<rparr>)] init_db"
  have ne: "ascii ''video'' \<noteq> []" by (simp add: ascii_def)
  have rows: "media_files ?db =
     [\<lparr>id_col = 1, message_id = 42, file_type = ascii ''video'', title = ascii ''Trees'',
       course = ascii ''Unknown'', extracted_by = ascii ''Unknown'', file_id = ascii ''v1'',
       timestamp = 7\<rparr>,
      \<lparr>id_col = 2, message_id = 43, file_type = ascii ''pdf'', title = ascii ''Notes'',
       course = ascii ''Unknown'', extracted_by = ascii ''Unknown'', file_id = ascii ''d1'',
       timestamp = 9\<rparr>]"
    by (simp add: run_defs eval_defs)
  have flt: "{r \<in> set (media_files ?db). file_type r = ascii ''video''} =
     {\<lparr>id_col = 1, message_id = 42, file_type = ascii ''video'', title = ascii ''Trees'',
       course = ascii ''Unknown'', extracted_by = ascii ''Unknown'', file_id = ascii ''v1'',
       timestamp = 7\<rparr>}"
    unfolding rows by (auto simp: ascii_def)
  from retrieval_order_and_filter [of "Some (ascii ''video'')" ?db "ascii ''video''"] ne
  show ?thesis unfolding flt by blast
qed

text \<open>
  C5 as it is stated fails: two records inserted within the same second are listed in the
  order of their ids, the older one first, which is not the descending order of ids.
\<close>

theorem tie_order_counterexample:
  "get_media_files None
      (run_monitor
        [(7, \<lparr>id_msg = 42, video = Some \<lparr>att_file_id = ascii ''v1''\<rparr>, document = None,
               caption = Some (video_marker @ ascii '' Trees'')\<rparr>),
         (7, \<lparr>id_msg = 43, video = Some \<lparr>att_file_id = ascii ''v2''\<rparr>, document = None,
               caption = Some (video_marker @ ascii '' Heaps'')\<rparr>)] init_db) =
     [\<lparr>id_col = 1, message_id = 42, file_type = ascii ''video'', title = ascii ''Trees'',
       course = ascii ''Unknown'', extracted_by = ascii ''Unknown'', file_id = ascii ''v1'',
       timestamp = 7\<rparr>,
      \<lparr>id_col = 2, message_id = 43, file_type = ascii ''video'', title = ascii ''Heaps'',
       course = ascii ''Unknown'', extracted_by = ascii ''Unknown'', file_id = ascii ''v2'',
       timestamp = 7\<rparr>] \<and>
   \<not> recency_desc (get_media_files None
      (run_monitor
        [(7, \<lparr>id_msg = 42, video = Some \<lparr>att_file_id = ascii ''v1''\<rparr>, document = None,
               caption = Some (video_marker @ ascii '' Trees'')\<rparr>),
         (7, \<lparr>id_msg = 43, video = Some \<lparr>att_file_id = ascii ''v2''\<rparr>, document = None,
               caption = Some (video_marker @ ascii '' Heaps'')\<rparr>)] init_db))"
  by (simp add: get_media_files_def order_by_timestamp_desc_def recency_desc_def run_defs eval_defs)

text \<open>
  C8. On a store without records the summary command answers with the fixed text
  "No media files found in database." and sends nothing to the channel; on a store without
  records of the kind asked for, the listing commands answer with the fixed texts
  "No videos found in database." and "No PDFs found in database.". These are ordinary
  replies, not errors, and none of the texts is empty.
\<close>

theorem empty_results:
  "(media_files db = [] \<longrightarrow>
      post_summary cfg (ADMIN_ID cfg) send_error db =
        [reply_text (ascii ''No media files found in database.'')]) \<and>
   ((\<forall>r\<in>set (media_files db). file_type r \<noteq> ascii ''video'') \<longrightarrow>
      get_videos cfg (ADMIN_ID cfg) db = [reply_text (ascii ''No videos found in database.'')]) \<and>
   ((\<forall>r\<in>set (media_files db). file_type r \<noteq> ascii ''pdf'') \<longrightarrow>
      get_pdfs cfg (ADMIN_ID cfg) db = [reply_text (ascii ''No PDFs found in database.'')]) \<and>
   ascii ''No media files found in database.'' \<noteq> [] \<and>
   ascii ''No videos found in database.'' \<noteq> [] \<and>
   ascii ''No PDFs found in database.'' \<noteq> []"
proof (intro conjI impI)
  assume "media_files db = []"
  then have "get_media_files None db = []"
    by (simp add: get_media_files_def order_by_timestamp_desc_Nil)
  then show "post_summary cfg (ADMIN_ID cfg) send_error db =
        [reply_text (ascii ''No media files found in database.'')]"
    by (simp add: post_summary_def)
next
  assume "\<forall>r\<in>set (media_files db). file_type r \<noteq> ascii ''video''"
  then have "filter (\<lambda>r. file_type r = ascii ''video'') (media_files db) = []"
    by (simp add: filter_empty_conv)
  then have "get_media_files (Some (ascii ''video'')) db = []"
    by (simp add: get_media_files_def order_by_timestamp_desc_Nil ascii_def)
  then show "get_videos cfg (ADMIN_ID cfg) db = [reply_text (ascii ''No videos found in database.'')]"
    by (simp add: get_videos_def)
next
  assume "\<forall>r\<in>set (media_files db). file_type r \<noteq> ascii ''pdf''"
  then have "filter (\<lambda>r. file_type r = ascii ''pdf'') (media_files db) = []"
    by (simp add: filter_empty_conv)
  then have "get_media_files (Some (ascii ''pdf'')) db = []"
    by (simp add: get_media_files_def order_by_timestamp_desc_Nil ascii_def)
  then show "get_pdfs cfg (ADMIN_ID cfg) db = [reply_text (ascii ''No PDFs found in database.'')]"
    by (simp add: get_pdfs_def)
qed (simp_all add: ascii_def)

theorem empty_results_witness:
  "post_summary \<lparr>CHANNEL_USERNAME = ascii ''chan'', ADMIN_ID = 1\<rparr> 1 None init_db =
     [reply_text (ascii ''No media files found in database.'')] \<and>
   get_videos \<lparr>CHANNEL_USERNAME = ascii ''chan'', ADMIN_ID = 1\<rparr> 1
      (process_channel_message 7
        \<lparr>id_msg = 43, video = None, document = Some \<lparr>att_file_id = ascii ''d1''\<rparr>,
         caption = Some (pdf_marker @ ascii '' Notes'')\<rparr> init_db) =
     [reply_text (ascii ''No videos found in database.'')] \<and>
   get_pdfs \<lparr>CHANNEL_USERNAME = ascii ''chan'', ADMIN_ID = 1\<rparr> 1 init_db =
     [reply_text (ascii ''No PDFs found in database.'')]"
proof -
  let ?cfg = "\<lparr>CHANNEL_USERNAME = ascii ''chan'', ADMIN_ID = 1\<rparr>"
  let ?db = "process_channel_message 7
        \<lparr>id_msg = 43, video = None, document = Some \<lparr>att_file_id = ascii ''d1''\<rparr>,
         caption = Some (pdf_marker @ ascii '' Notes'')\<rparr> init_db"
  have e: "media_files init_db = []" by (simp add: init_db_def)
  have rows: "media_files ?db =
     [\<lparr>id_col = 1, message_id = 43, file_type = ascii ''pdf'', title = ascii ''Notes'',
       course = ascii ''Unknown'', extracted_by = ascii ''Unknown'', file_id = ascii ''d1'',
       timestamp = 7\<rparr>]"
    by (simp add: run_defs eval_defs)
  have v: "\<forall>r\<in>set (media_files ?db). file_type r \<noteq> ascii ''video''"
    unfolding rows by (simp add: ascii_def)
  from empty_results [of init_db ?cfg None] e
  have "post_summary ?cfg 1 None init_db = [reply_text (ascii ''No media files found in database.'')]"
    and "get_pdfs ?cfg 1 init_db = [reply_text (ascii ''No PDFs found in database.'')]"
    by simp_all
  moreover from empty_results [of ?db ?cfg None] v
  have "get_videos ?cfg 1 ?db = [reply_text (ascii ''No videos found in database.'')]"
    by simp
  ultimately show ?thesis by blast
qed

lemma foldl_append_concat: "foldl (\<lambda>t v. t @ f v) acc xs = acc @ concat (map f xs)"
  by (induction xs arbitrary: acc) simp_all

lemma course_block_text:
  "course_block cfg sofar (c, files) =
     sofar @ ascii ''**'' @ c @ ascii ''**'' @ [NL] @
     sub_list cfg videos_header (take 5 (filter (\<lambda>f. file_type f = ascii ''video'') files)) @
     sub_list cfg pdfs_header (take 5 (filter (\<lambda>f. file_type f = ascii ''pdf'') files)) @ [NL]"
  by (simp add: course_block_def sub_list_def Let_def foldl_append_concat)

lemma course_block_append: "course_block cfg sofar item = sofar @ course_block cfg [] item"
  by (cases item) (simp add: course_block_text)

lemma foldl_course_block:
  "foldl (course_block cfg) sofar items = sofar @ concat (map (course_block cfg []) items)"
proof (induction items arbitrary: sofar)
  case Nil
  then show ?case by simp
next
  case (Cons item items)
  have "foldl (course_block cfg) sofar (item # items) =
      foldl (course_block cfg) (course_block cfg sofar item) items" by simp
  also have "\<dots> = course_block cfg sofar item @ concat (map (course_block cfg []) items)"
    by (rule Cons.IH)
  also have "\<dots> = sofar @ concat (map (course_block cfg []) (item # items))"
    using course_block_append [of cfg sofar item] by simp
  finally show ?case .
qed

lemma render_summary_blocks:
  "render_summary cfg media = summary_header @ concat (map (course_block cfg []) (organize media))"
  by (simp add: render_summary_def foldl_course_block)

lemma add_file_known:
  "course f \<in> set (map fst od) \<Longrightarrow>
     add_file od f = map (\<lambda>(c, files). if c = course f then (c, files @ [f]) else (c, files)) od"
  by (simp add: add_file_def)

lemma add_file_new:
  assumes "course f \<notin> set (map fst od)"
  shows "add_file od f = od @ [(course f, [f])]"
proof -
  have "map (\<lambda>(c, files). if c = course f then (c, files @ [f]) else (c, files)) od = od"
    using assms by (induction od) auto
  with assms show ?thesis by (simp add: add_file_def)
qed

lemma foldl_add_file:
  "foldl add_file od fs =
     map (\<lambda>(c, g). (c, g @ filter (\<lambda>f. course f = c) fs)) od @
     map (\<lambda>c. (c, filter (\<lambda>f. course f = c) fs))
       (filter (\<lambda>c. c \<notin> set (map fst od)) (first_seen (map course fs)))"
proof (induction fs arbitrary: od)
  case Nil
  then show ?case by (simp add: case_prod_unfold)
next
  case (Cons f fs)
  let ?c = "course f"
  let ?FS = "first_seen (map course fs)"
  show ?case
  proof (cases "?c \<in> set (map fst od)")
    case True
    let ?od = "map (\<lambda>(c, files). if c = ?c then (c, files @ [f]) else (c, files)) od"
    have keys: "map fst ?od = map fst od" by (induction od) auto
    have "foldl add_file od (f # fs) = foldl add_file ?od fs"
      using True by (simp add: add_file_known)
    also have "\<dots> = map (\<lambda>(c, g). (c, g @ filter (\<lambda>f. course f = c) fs)) ?od @
       map (\<lambda>c. (c, filter (\<lambda>f. course f = c) fs))
         (filter (\<lambda>c. c \<notin> set (map fst od)) ?FS)"
      unfolding Cons.IH [of ?od] keys ..
    also have "map (\<lambda>(c, g). (c, g @ filter (\<lambda>f. course f = c) fs)) ?od =
        map (\<lambda>(c, g). (c, g @ filter (\<lambda>f. course f = c) (f # fs))) od"
      by (induction od) auto
    also have "map (\<lambda>c. (c, filter (\<lambda>f. course f = c) fs))
         (filter (\<lambda>c. c \<notin> set (map fst od)) ?FS) =
       map (\<lambda>c. (c, filter (\<lambda>f. course f = c) (f # fs)))
         (filter (\<lambda>c. c \<notin> set (map fst od)) (first_seen (map course (f # fs))))"
    proof -
      have "filter (\<lambda>c. c \<notin> set (map fst od)) (first_seen (map course (f # fs))) =
          filter (\<lambda>c. c \<notin> set (map fst od)) ?FS"
        using True by (auto intro: filter_cong)
      moreover have "map (\<lambda>c. (c, filter (\<lambda>f. course f = c) fs))
           (filter (\<lambda>c. c \<notin> set (map fst od)) ?FS) =
         map (\<lambda>c. (c, filter (\<lambda>f. course f = c) (f # fs)))
           (filter (\<lambda>c. c \<notin> set (map fst od)) ?FS)"
        using True by (auto intro!: map_cong)
      ultimately show ?thesis by simp
    qed
    finally show ?thesis .
  next
    case False
    let ?od = "od @ [(?c, [f])]"
    have "foldl add_file od (f # fs) = foldl add_file ?od fs"
      using False by (simp add: add_file_new)
    also have "\<dots> = map (\<lambda>(c, g). (c, g @ filter (\<lambda>f. course f = c) fs)) ?od @
       map (\<lambda>c. (c, filter (\<lambda>f. course f = c) fs))
         (filter (\<lambda>c. c \<notin> set (map fst ?od)) ?FS)"
      by (rule Cons.IH)
    also have "\<dots> = map (\<lambda>(c, g). (c, g @ filter (\<lambda>f. course f = c) fs)) od @
       (?c, f # filter (\<lambda>f. course f = ?c) fs) #
       map (\<lambda>c. (c, filter (\<lambda>f. course f = c) fs))
         (filter (\<lambda>c. c \<notin> set (map fst od)) (filter (\<lambda>y. y \<noteq> ?c) ?FS))"
      by (simp add: conj_commute)
    also have "\<dots> = map (\<lambda>(c, g). (c, g @ filter (\<lambda>f. course f = c) (f # fs))) od @
       map (\<lambda>c. (c, filter (\<lambda>f. course f = c) (f # fs)))
         (filter (\<lambda>c. c \<notin> set (map fst od)) (first_seen (map course (f # fs))))"
    proof -
      have "map (\<lambda>(c, g). (c, g @ filter (\<lambda>f. course f = c) fs)) od =
          map (\<lambda>(c, g). (c, g @ filter (\<lambda>f. course f = c) (f # fs))) od"
        using False by (induction od) auto
      moreover have "map (\<lambda>c. (c, filter (\<lambda>f. course f = c) fs))
           (filter (\<lambda>c. c \<notin> set (map fst od)) (filter (\<lambda>y. y \<noteq> ?c) ?FS)) =
         map (\<lambda>c. (c, filter (\<lambda>f. course f = c) (f # fs)))
           (filter (\<lambda>c. c \<notin> set (map fst od)) (filter (\<lambda>y. y \<noteq> ?c) ?FS))"
        by (auto intro!: map_cong)
      ultimately show ?thesis using False by simp
    qed
    finally show ?thesis .
  qed
qed

lemma organize_eq:
  "organize media =
     map (\<lambda>c. (c, filter (\<lambda>f. course f = c) media)) (first_seen (map course media))"
  by (simp add: organize_def foldl_add_file)

text \<open>
  C6. In the summary every course block lists at most 5 videos and at most 5 documents,
  however many records the course has: the block is the header line of the course, the
  Videos sub-list of the first 5 videos of the course, the PDFs sub-list of its first 5
  documents and an empty line, and the summary is its title followed by the blocks of the
  course groups.
\<close>

theorem course_block_caps:
  "course_block cfg sofar (c, files) =
     sofar @ ascii ''**'' @ c @ ascii ''**'' @ [NL] @
     sub_list cfg videos_header (take 5 (filter (\<lambda>f. file_type f = ascii ''video'') files)) @
     sub_list cfg pdfs_header (take 5 (filter (\<lambda>f. file_type f = ascii ''pdf'') files)) @ [NL] \<and>
   length (take 5 (filter (\<lambda>f. file_type f = ascii ''video'') files)) \<le> 5 \<and>
   length (take 5 (filter (\<lambda>f. file_type f = ascii ''pdf'') files)) \<le> 5 \<and>
   (5 < length (filter (\<lambda>f. file_type f = ascii ''video'') files) \<longrightarrow>
      length (take 5 (filter (\<lambda>f. file_type f = ascii ''video'') files)) = 5) \<and>
   (5 < length (filter (\<lambda>f. file_type f = ascii ''pdf'') files) \<longrightarrow>
      length (take 5 (filter (\<lambda>f. file_type f = ascii ''pdf'') files)) = 5) \<and>
   render_summary cfg media =
     summary_header @ concat (map (course_block cfg []) (organize media))"
  by (simp add: course_block_text render_summary_blocks)

theorem course_block_caps_witness:
  "course_block \<lparr>CHANNEL_USERNAME = ascii ''chan'', ADMIN_ID = 1\<rparr> [] (ascii ''CS201'',
      map (\<lambda>i. \<lparr>id_col = i, message_id = int i, file_type = ascii ''video'',
                 title = ascii ''Trees'', course = ascii ''CS201'', extracted_by = ascii ''bob'',
                 file_id = ascii ''v'', timestamp = i\<rparr>) [1, 2, 3, 4, 5, 6, 7]) =
     ascii ''**CS201**'' @ [NL] @ videos_header @
     concat (map (link_line \<lparr>CHANNEL_USERNAME = ascii ''chan'', ADMIN_ID = 1\<rparr>)
       (map (\<lambda>i. \<lparr>id_col = i, message_id = int i, file_type = ascii ''video'',
                 title = ascii ''Trees'', course = ascii ''CS201'', extracted_by = ascii ''bob'',
                 file_id = ascii ''v'', timestamp = i\<rparr>) [1, 2, 3, 4, 5])) @ [NL]"
proof -
  let ?cfg = "\<lparr>CHANNEL_USERNAME = ascii ''chan'', ADMIN_ID = 1\<rparr>"
  let ?row = "\<lambda>i. \<lparr>id_col = i, message_id = int i, file_type = ascii ''video'',
                 title = ascii ''Trees'', course = ascii ''CS201'', extracted_by = ascii ''bob'',
                 file_id = ascii ''v'', timestamp = i\<rparr>"
  have v: "filter (\<lambda>f. file_type f = ascii ''video'') (map ?row [1, 2, 3, 4, 5, 6, 7]) =
      map ?row [1, 2, 3, 4, 5, 6, 7]"
    by simp
  have p: "filter (\<lambda>f. file_type f = ascii ''pdf'') (map ?row [1, 2, 3, 4, 5, 6, 7]) = []"
    by (simp add: ascii_def)
  have "5 < length (filter (\<lambda>f. file_type f = ascii ''video'') (map ?row [1, 2, 3, 4, 5, 6, 7]))"
    unfolding v by simp
  with course_block_caps [of ?cfg "[]" "ascii ''CS201''" "map ?row [1, 2, 3, 4, 5, 6, 7]" "[]"]
  show ?thesis unfolding v p by (simp add: sub_list_def ascii_def)
qed

text \<open>
  C7. The summary groups the loaded records by course, the courses in the order in which
  they are first seen while the records are scanned and each group holding the records of
  its course in their loaded order. A course block has the Videos sub-header (and the
  entries under it) only when the course has at least one video record, and the PDFs
  sub-header only when it has at least one document record.
\<close>

theorem summary_grouping:
  "map fst (organize media) = first_seen (map course media) \<and>
   organize media =
     map (\<lambda>c. (c, filter (\<lambda>f. course f = c) media)) (first_seen (map course media)) \<and>
   render_summary cfg media =
     summary_header @ concat (map (course_block cfg []) (organize media)) \<and>
   course_block cfg sofar (c, files) =
     sofar @ ascii ''**'' @ c @ ascii ''**'' @ [NL] @
     (if \<exists>f\<in>set files. file_type f = ascii ''video''
      then videos_header @
        concat (map (link_line cfg) (take 5 (filter (\<lambda>f. file_type f = ascii ''video'') files)))
      else []) @
     (if \<exists>f\<in>set files. file_type f = ascii ''pdf''
      then pdfs_header @
        concat (map (link_line cfg) (take 5 (filter (\<lambda>f. file_type f = ascii ''pdf'') files)))
      else []) @ [NL]"
proof (intro conjI)
  show "organize media =
     map (\<lambda>c. (c, filter (\<lambda>f. course f = c) media)) (first_seen (map course media))"
    by (rule organize_eq)
  then show "map fst (organize media) = first_seen (map course media)"
    by (simp add: comp_def)
  show "render_summary cfg media =
     summary_header @ concat (map (course_block cfg []) (organize media))"
    by (rule render_summary_blocks)
  have "\<And>k. (filter (\<lambda>f. file_type f = k) files = []) = (\<not> (\<exists>f\<in>set files. file_type f = k))"
    by (auto simp: filter_empty_conv)
  then show "course_block cfg sofar (c, files) =
     sofar @ ascii ''**'' @ c @ ascii ''**'' @ [NL] @
     (if \<exists>f\<in>set files. file_type f = ascii ''video''
      then videos_header @
        concat (map (link_line cfg) (take 5 (filter (\<lambda>f. file_type f = ascii ''video'') files)))
      else []) @
     (if \<exists>f\<in>set files. file_type f = ascii ''pdf''
      then pdfs_header @
        concat (map (link_line cfg) (take 5 (filter (\<lambda>f. file_type f = ascii ''pdf'') files)))
      else []) @ [NL]"
    by (simp add: course_block_text sub_list_def)
qed

theorem summary_grouping_witness:
  "organize
     [\<lparr>id_col = 3, message_id = 12, file_type = ascii ''video'', title = ascii ''A'',
       course = ascii ''CS201'', extracted_by = ascii ''bob'', file_id = ascii ''v'', timestamp = 9\<rparr>,
      \<lparr>id_col = 2, message_id = 11, file_type = ascii ''pdf'', title = ascii ''C'',
       course = ascii ''MA101'', extracted_by = ascii ''bob'', file_id = ascii ''e'', timestamp = 8\<rparr>,
      \<lparr>id_col = 1, message_id = 10, file_type = ascii ''pdf'', title = ascii ''B'',
       course = ascii ''CS201'', extracted_by = ascii ''bob'', file_id = ascii ''d'', timestamp = 7\<rparr>] =
     [(ascii ''CS201'',
       [\<lparr>id_col = 3, message_id = 12, file_type = ascii ''video'', title = ascii ''A'',
         course = ascii ''CS201'', extracted_by = ascii ''bob'', file_id = ascii ''v'', timestamp = 9\<rparr>,
        \<lparr>id_col = 1, message_id = 10, file_type = ascii ''pdf'', title = ascii ''B'',
         course = ascii ''CS201'', extracted_by = ascii ''bob'', file_id = ascii ''d'', timestamp = 7\<rparr>]),
      (ascii ''MA101'',
       [\<lparr>id_col = 2, message_id = 11, file_type = ascii ''pdf'', title = ascii ''C'',
         course = ascii ''MA101'', extracted_by = ascii ''bob'', file_id = ascii ''e'', timestamp = 8\<rparr>])] \<and>
   course_block \<lparr>CHANNEL_USERNAME = ascii ''chan'', ADMIN_ID = 1\<rparr> [] (ascii ''MA101'',
       [\<lparr>id_col = 2, message_id = 11, file_type = ascii ''pdf'', title = ascii ''C'',
         course = ascii ''MA101'', extracted_by = ascii ''bob'', file_id = ascii ''e'', timestamp = 8\<rparr>]) =
     ascii ''**MA101**'' @ [NL] @ pdfs_header @
     link_line \<lparr>CHANNEL_USERNAME = ascii ''chan'', ADMIN_ID = 1\<rparr>
       \<lparr>id_col = 2, message_id = 11, file_type = ascii ''pdf'', title = ascii ''C'',
         course = ascii ''MA101'', extracted_by = ascii ''bob'', file_id = ascii ''e'', timestamp = 8\<rparr> @
     [NL]"
proof -
  let ?cfg = "\<lparr>CHANNEL_USERNAME = ascii ''chan'', ADMIN_ID = 1\<rparr>"
  let ?a = "\<lparr>id_col = 3, message_id = 12, file_type = ascii ''video'', title = ascii ''A'',
       course = ascii ''CS201'', extracted_by = ascii ''bob'', file_id = ascii ''v'', timestamp = 9\<rparr>"
  let ?c = "\<lparr>id_col = 2, message_id = 11, file_type = ascii ''pdf'', title = ascii ''C'',
       course = ascii ''MA101'', extracted_by = ascii ''bob'', file_id = ascii ''e'', timestamp = 8\<rparr>"
  let ?b = "\<lparr>id_col = 1, message_id = 10, file_type = ascii ''pdf'', title = ascii ''B'',
       course = ascii ''CS201'', extracted_by = ascii ''bob'', file_id = ascii ''d'', timestamp = 7\<rparr>"
  note t = summary_grouping [of "[?a, ?c, ?b]" ?cfg "[]" "ascii ''MA101''" "[?c]"]
  from t have "organize [?a, ?c, ?b] =
      map (\<lambda>c. (c, filter (\<lambda>f. course f = c) [?a, ?c, ?b])) (first_seen (map course [?a, ?c, ?b]))"
    by blast
  then have "organize [?a, ?c, ?b] = [(ascii ''CS201'', [?a, ?b]), (ascii ''MA101'', [?c])]"
    by (simp add: ascii_def)
  moreover from t have "course_block ?cfg [] (ascii ''MA101'', [?c]) =
      ascii ''**MA101**'' @ [NL] @ pdfs_header @ link_line ?cfg ?c @ [NL]"
    by (simp add: ascii_def)
  ultimately show ?thesis by blast
qed

end
